theory Spec2Isabelle
  imports Complex_Main "HOL-Library.Word" "HOL-Library.AList" "HOL-Library.Sublist"
begin

text \<open>
  A model of \<^verbatim>\<open>fact/io.py\<close>, the reading and writing of tabular event data: the byte-order
  normaliser, the readers of raw hierarchical containers (whole and in chunks), and the
  dispatchers on the file extension. The library calls the module makes (numpy, h5py,
  pandas) are modelled as far as the module uses them; the definitions come first, the
  properties of the module after them.
\<close>

section \<open>Exceptions\<close>

text \<open>
  Every \<^verbatim>\<open>raise\<close> of \<^verbatim>\<open>fact/io.py\<close> and every failure of a library call it makes is a
  value of \<open>exn\<close>; a computation that may raise returns \<open>exn + 'a\<close> with \<open>Inl\<close> the
  exception. The constructors are Python's exception classes, the string is the message.
  \<open>IOError\<close> is Python 3's alias of \<open>OSError\<close>, so the failures of \<^verbatim>\<open>h5py.File\<close> are
  \<open>IOError\<close>s as well. A subclass is filed under the class an \<^verbatim>\<open>except\<close> clause would
  catch it by.
\<close>

datatype exn =
    IOError string
  | NotImplementedError string
  | KeyError string
  | ValueError string
  | TypeError string
  | IndexError string
  | ZeroDivisionError string
  | OverflowError string
  | RuntimeError string
  | StopIteration
  | OtherError string

definition bind_exn :: "exn + 'a \<Rightarrow> ('a \<Rightarrow> exn + 'b) \<Rightarrow> exn + 'b" where
  "bind_exn m f = (case m of Inl e \<Rightarrow> Inl e | Inr x \<Rightarrow> f x)"

text \<open>The message of an exception, \<^verbatim>\<open>str(e)\<close>.\<close>

definition exn_message :: "exn \<Rightarrow> string" where
  "exn_message e =
     (case e of
        IOError m \<Rightarrow> m | NotImplementedError m \<Rightarrow> m | KeyError m \<Rightarrow> m | ValueError m \<Rightarrow> m
      | TypeError m \<Rightarrow> m | IndexError m \<Rightarrow> m | ZeroDivisionError m \<Rightarrow> m | OverflowError m \<Rightarrow> m
      | RuntimeError m \<Rightarrow> m | StopIteration \<Rightarrow> [] | OtherError m \<Rightarrow> m)"

section \<open>Arrays and byte order\<close>

text \<open>
  A numpy array is its dtype's byte-order tag (\<^verbatim>\<open>array.dtype.byteorder\<close>: \<^verbatim>\<open>'='\<close> native,
  \<^verbatim>\<open>'<'\<close> little, \<^verbatim>\<open>'>'\<close> big, \<^verbatim>\<open>'|'\<close> not applicable), its shape, and its elements in
  row-major order, each element the bytes it occupies in memory, lowest address first.
  \<^verbatim>\<open>sys.byteorder\<close> is a parameter of the model.
\<close>

type_synonym byte = "8 word"

datatype endianness = little | big

datatype byteorder = Bo_native | Bo_little | Bo_big | Bo_not_applicable

record ndarray =
  byteorder :: byteorder
  shape :: "nat list"
  items :: "byte list list"

definition ndim :: "ndarray \<Rightarrow> nat" where
  "ndim a = length (shape a)"

text \<open>\<^verbatim>\<open>native_byteorder = {'little': '<', 'big': '>'}[sys.byteorder]\<close>\<close>

definition native_byteorder :: "endianness \<Rightarrow> byteorder" where
  "native_byteorder sys = (case sys of little \<Rightarrow> Bo_little | big \<Rightarrow> Bo_big)"

text \<open>
  The value an element stands for, as its bytes from least to most significant: the
  stored bytes when the tag reads little-endian on this host, their reverse when it reads
  big-endian. An element without byte order (one byte, or a byte string) is its bytes.
\<close>

definition item_value :: "endianness \<Rightarrow> byteorder \<Rightarrow> byte list \<Rightarrow> byte list" where
  "item_value sys bo bs =
     (case bo of
        Bo_not_applicable \<Rightarrow> bs
      | Bo_little \<Rightarrow> bs
      | Bo_big \<Rightarrow> rev bs
      | Bo_native \<Rightarrow> (case sys of little \<Rightarrow> bs | big \<Rightarrow> rev bs))"

definition array_values :: "endianness \<Rightarrow> ndarray \<Rightarrow> byte list list" where
  "array_values sys a = map (item_value sys (byteorder a)) (items a)"

text \<open>
  \<^verbatim>\<open>array.byteswap()\<close>: a new array of the same dtype whose elements have their bytes
  reversed; numpy swaps nothing in an element that has no byte order.
  \<^verbatim>\<open>array.newbyteorder()\<close>: the same bytes under the dtype of the opposite byte order
  (\<^verbatim>\<open>'|'\<close> is left as it is).
\<close>

definition byteswap :: "ndarray \<Rightarrow> ndarray" where
  "byteswap a =
     a\<lparr>items := (if byteorder a = Bo_not_applicable then items a else map rev (items a))\<rparr>"

definition newbyteorder :: "endianness \<Rightarrow> ndarray \<Rightarrow> ndarray" where
  "newbyteorder sys a =
     a\<lparr>byteorder :=
         (case byteorder a of
            Bo_little \<Rightarrow> Bo_big
          | Bo_big \<Rightarrow> Bo_little
          | Bo_native \<Rightarrow> (case sys of little \<Rightarrow> Bo_big | big \<Rightarrow> Bo_little)
          | Bo_not_applicable \<Rightarrow> Bo_not_applicable)\<rparr>"

definition to_native_byteorder :: "endianness \<Rightarrow> ndarray \<Rightarrow> ndarray" where
  "to_native_byteorder sys array =
     (if byteorder array \<notin> set [Bo_native, native_byteorder sys]
      then newbyteorder sys (byteswap array)
      else array)"

subsection \<open>The same function on array objects\<close>

text \<open>
  Whether \<^verbatim>\<open>to_native_byteorder\<close> hands back its argument or a copy is a question about
  objects, not values. A heap is the list of the array objects allocated so far and a
  reference is a position in it; \<^verbatim>\<open>byteswap\<close> and \<^verbatim>\<open>newbyteorder\<close> each allocate the array
  they return, \<^verbatim>\<open>return array\<close> returns the reference it was given. A reference outside
  the heap cannot arise in Python and gives \<open>None\<close>.
\<close>

type_synonym ref = nat
type_synonym heap = "ndarray list"

definition alloc :: "heap \<Rightarrow> ndarray \<Rightarrow> heap \<times> ref" where
  "alloc h a = (h @ [a], length h)"

definition byteswap_ref :: "heap \<Rightarrow> ref \<Rightarrow> heap \<times> ref" where
  "byteswap_ref h r = alloc h (byteswap (h ! r))"

definition newbyteorder_ref :: "endianness \<Rightarrow> heap \<Rightarrow> ref \<Rightarrow> heap \<times> ref" where
  "newbyteorder_ref sys h r = alloc h (newbyteorder sys (h ! r))"

definition to_native_byteorder_ref :: "endianness \<Rightarrow> heap \<Rightarrow> ref \<Rightarrow> (heap \<times> ref) option" where
  "to_native_byteorder_ref sys h array =
     (if array < length h then
        (if byteorder (h ! array) \<notin> set [Bo_native, native_byteorder sys]
         then (let (h1, swapped) = byteswap_ref h array in Some (newbyteorder_ref sys h1 swapped))
         else Some (h, array))
      else None)"

section \<open>Raw containers\<close>

text \<open>
  A group is its member datasets in the container's key order; a dataset read whole is an
  \<open>ndarray\<close>, so a dataset is modelled as one. A file is the groups it holds and what the
  caller may do with it; the file system maps paths to files.

  \<^verbatim>\<open>h5py.File(file_path, mode)\<close> with mode \<^verbatim>\<open>'r'\<close> needs an existing file the caller may
  read, with mode \<^verbatim>\<open>'r+'\<close> one the caller may also write. The messages of h5py are
  abbreviated.
\<close>

type_synonym dataset = ndarray
type_synonym group = "(string \<times> dataset) list"

record h5file =
  may_read :: bool
  may_write :: bool
  groups :: "(string \<times> group) list"

type_synonym filesystem = "string \<rightharpoonup> h5file"

datatype file_mode = Mode_r | Mode_r_plus

definition h5py_File :: "filesystem \<Rightarrow> string \<Rightarrow> file_mode \<Rightarrow> exn + (string \<times> group) list" where
  "h5py_File fs file_path mode =
     (case fs file_path of
        None \<Rightarrow> Inl (IOError (''Unable to open file (No such file or directory): '' @ file_path))
      | Some file \<Rightarrow>
          if \<not> may_read file \<or> (mode = Mode_r_plus \<and> \<not> may_write file)
          then Inl (IOError (''Unable to open file (Permission denied): '' @ file_path))
          else Inr (groups file))"

text \<open>\<^verbatim>\<open>group[col]\<close>\<close>

definition getitem :: "group \<Rightarrow> string \<Rightarrow> exn + dataset" where
  "getitem grp col =
     (case map_of grp col of
        None \<Rightarrow> Inl (KeyError col)
      | Some dataset \<Rightarrow> Inr dataset)"

text \<open>
  \<^verbatim>\<open>dataset[start:end]\<close> selects along the first axis with Python's slice rules (a
  negative bound counts from the end, both bounds are clamped to the length);
  \<^verbatim>\<open>dataset[:]\<close> is the whole dataset. h5py refuses either on a dataset of rank 0.
\<close>

definition slice_bounds :: "nat \<Rightarrow> int \<Rightarrow> int \<Rightarrow> nat \<times> nat" where
  "slice_bounds n start stop =
     (let clamp = (\<lambda>i. if i < 0 then max 0 (i + int n) else min i (int n));
          s = nat (clamp start);
          e = nat (clamp stop)
      in (s, max s e))"

definition dataset_slice :: "dataset \<Rightarrow> int \<Rightarrow> int \<Rightarrow> exn + ndarray" where
  "dataset_slice d start stop =
     (case shape d of
        [] \<Rightarrow> Inl (ValueError ''Illegal slicing argument for scalar dataspace'')
      | n # inner \<Rightarrow>
          (let (s, e) = slice_bounds n start stop; stride = prod_list inner
           in Inr \<lparr>byteorder = byteorder d, shape = (e - s) # inner,
                   items = take ((e - s) * stride) (drop (s * stride) (items d))\<rparr>))"

definition dataset_all :: "dataset \<Rightarrow> exn + ndarray" where
  "dataset_all d =
     (case shape d of
        [] \<Rightarrow> Inl (ValueError ''Illegal slicing argument for scalar dataspace'')
      | n # inner \<Rightarrow> Inr d)"

text \<open>\<^verbatim>\<open>array[:, i]\<close> of a rank-2 array: element \<open>i\<close> of every row.\<close>

definition take_column :: "ndarray \<Rightarrow> nat \<Rightarrow> ndarray" where
  "take_column array i =
     (let n = shape array ! 0; w = shape array ! 1
      in \<lparr>byteorder = byteorder array, shape = [n],
          items = map (\<lambda>r. items array ! (r * w + i)) [0..<n]\<rparr>)"

section \<open>Tables\<close>

text \<open>
  A pandas DataFrame is its row index and its columns in order, each a name and one cell
  per row. A cell holds the value of an array element, or NaN where pandas fills in.
\<close>

datatype cell = Val "byte list" | NaN

record table =
  index :: "int list"
  table_columns :: "(string \<times> cell list) list"

text \<open>\<^verbatim>\<open>pd.DataFrame()\<close>, \<^verbatim>\<open>np.arange(start, end)\<close> and \<^verbatim>\<open>pd.DataFrame(index=...)\<close>\<close>

definition DataFrame :: table where
  "DataFrame = \<lparr>index = [], table_columns = []\<rparr>"

definition arange :: "int \<Rightarrow> int \<Rightarrow> int list" where
  "arange start stop = [start..stop - 1]"

definition DataFrame_index :: "int list \<Rightarrow> table" where
  "DataFrame_index idx = \<lparr>index = idx, table_columns = []\<rparr>"

definition cells :: "endianness \<Rightarrow> ndarray \<Rightarrow> cell list" where
  "cells sys array = map Val (array_values sys array)"

text \<open>
  \<^verbatim>\<open>df[name] = array\<close> for an array of rank 1. A frame whose index is empty takes the
  positions of a non-empty value as its index, and the columns it had are filled with
  NaN; otherwise the value must be as long as the index. The column replaces the one of
  the same name where there is one and is appended where there is none. pandas refuses
  an array of higher rank.
\<close>

definition df_setitem :: "table \<Rightarrow> string \<Rightarrow> cell list \<Rightarrow> exn + table" where
  "df_setitem df name vals =
     (if index df = [] \<and> vals \<noteq> [] then
        Inr \<lparr>index = arange 0 (int (length vals)),
             table_columns = AList.update name vals
                         (map (\<lambda>(n, old). (n, replicate (length vals) NaN)) (table_columns df))\<rparr>
      else if length vals \<noteq> length (index df) then
        Inl (ValueError ''Length of values does not match length of index'')
      else Inr (df\<lparr>table_columns := AList.update name vals (table_columns df)\<rparr>))"

definition df_setitem_array :: "endianness \<Rightarrow> table \<Rightarrow> string \<Rightarrow> ndarray \<Rightarrow> exn + table" where
  "df_setitem_array sys df name array =
     (if ndim array = 1 then df_setitem df name (cells sys array)
      else Inl (ValueError ''Wrong number of dimensions''))"

text \<open>\<^verbatim>\<open>'{}'.format(i)\<close> for a non-negative integer: its decimal digits.\<close>

definition digit_char :: "nat \<Rightarrow> char" where
  "digit_char d = char_of (48 + d)"

function str_nat :: "nat \<Rightarrow> string" where
  "str_nat n = (if n < 10 then [digit_char n] else str_nat (n div 10) @ [digit_char (n mod 10)])"
  by pat_completeness auto
termination
  by (relation "measure id") auto

declare str_nat.simps [simp del]

text \<open>
  The inner loop of both readers:
  \<^verbatim>\<open>for i in range(array.shape[1]): df[col + '_{}'.format(i)] = array[:, i]\<close>
\<close>

fun flatten_columns :: "endianness \<Rightarrow> ndarray \<Rightarrow> string \<Rightarrow> nat list \<Rightarrow> table \<Rightarrow> exn + table" where
  "flatten_columns sys array col [] df = Inr df"
| "flatten_columns sys array col (i # rest) df =
     bind_exn (df_setitem_array sys df (col @ ''_'' @ str_nat i) (take_column array i))
       (\<lambda>df'. flatten_columns sys array col rest df')"

section \<open>The raw-container readers\<close>

definition group_missing :: "string \<Rightarrow> exn" where
  "group_missing key = IOError (''File does not contain group '' @ [CHR 0x22] @ key @ [CHR 0x22])"

text \<open>
  \<^verbatim>\<open>columns = [col for col in group.keys() if group[col].ndim == 1]\<close> when \<^verbatim>\<open>columns is None\<close>
\<close>

definition resolve_columns :: "group \<Rightarrow> string list option \<Rightarrow> string list" where
  "resolve_columns grp columns =
     (case columns of
        None \<Rightarrow> filter (\<lambda>col. case map_of grp col of Some d \<Rightarrow> ndim d = 1 | None \<Rightarrow> False)
                 (map fst grp)
      | Some cols \<Rightarrow> cols)"

text \<open>
  The loop of \<^verbatim>\<open>read_h5py\<close> over the columns. The warning it logs for a skipped column
  is not part of the model.
\<close>

fun read_h5py_columns :: "endianness \<Rightarrow> group \<Rightarrow> string list \<Rightarrow> table \<Rightarrow> exn + table" where
  "read_h5py_columns sys grp [] df = Inr df"
| "read_h5py_columns sys grp (col # rest) df =
     bind_exn (getitem grp col) (\<lambda>dataset.
     bind_exn (dataset_all dataset) (\<lambda>raw.
       let array = to_native_byteorder sys raw in
       bind_exn
         (if ndim array = 1 then df_setitem df col (cells sys array)
          else if ndim array = 2 then
            flatten_columns sys array col [0..<shape array ! 1] df
          else Inr df)
         (\<lambda>df'. read_h5py_columns sys grp rest df')))"

definition read_h5py :: "endianness \<Rightarrow> filesystem \<Rightarrow> string \<Rightarrow> string \<Rightarrow> string list option \<Rightarrow> exn + table" where
  "read_h5py sys fs file_path key columns =
     bind_exn (h5py_File fs file_path Mode_r_plus) (\<lambda>f.
       case map_of f key of
         None \<Rightarrow> Inl (group_missing key)
       | Some grp \<Rightarrow>
           read_h5py_columns sys grp (resolve_columns grp columns) DataFrame)"

text \<open>
  \<^verbatim>\<open>group[next(iter(group.keys()))].shape[0]\<close>: \<^verbatim>\<open>next\<close> raises StopIteration on a group
  without members, and the shape of a rank-0 dataset has no entry 0.
\<close>

definition h5py_get_n_events :: "filesystem \<Rightarrow> string \<Rightarrow> string \<Rightarrow> exn + int" where
  "h5py_get_n_events fs file_path key =
     bind_exn (h5py_File fs file_path Mode_r_plus) (\<lambda>f.
       case map_of f key of
         None \<Rightarrow> Inl (group_missing key)
       | Some grp \<Rightarrow>
           (case map fst grp of
              [] \<Rightarrow> Inl StopIteration
            | first # _ \<Rightarrow>
                bind_exn (getitem grp first) (\<lambda>d.
                  case shape d of
                    [] \<Rightarrow> Inl (IndexError ''tuple index out of range'')
                  | n # _ \<Rightarrow> Inr (int n))))"

section \<open>The chunked reader\<close>

text \<open>
  \<^verbatim>\<open>read_h5py_chunked\<close> contains \<^verbatim>\<open>yield\<close>, so it is a generator function: calling it
  runs none of its body and returns a generator object. Each \<^verbatim>\<open>next\<close> runs the body up
  to the next \<^verbatim>\<open>yield\<close>. The generator is modelled by the states it can be suspended in:
  created with its arguments, suspended at the \<^verbatim>\<open>yield\<close> of chunk number \<open>chunk\<close> with the
  local variables that are still live, or finished.
\<close>

record chunk_locals =
  l_group :: group
  l_columns :: "string list"
  l_n_events :: int
  l_chunksize :: int
  l_n_chunks :: int

datatype generator =
    Created string string "string list option" "int option"
  | Suspended chunk_locals nat
  | Finished

datatype 'a step = Yield 'a | Raise exn | Stop

definition read_h5py_chunked :: "string \<Rightarrow> string \<Rightarrow> string list option \<Rightarrow> int option \<Rightarrow> generator" where
  "read_h5py_chunked file_path key columns chunksize = Created file_path key columns chunksize"

text \<open>
  \<^verbatim>\<open>n_chunks = int(np.ceil(n_events / chunksize))\<close>. The quotient of two Python integers
  is a float: the double nearest to the exact quotient, a tie going to the even
  mantissa. A finite double is \<open>Double m e\<close>, the number \<open>m * 2^e\<close>, with a mantissa \<open>m\<close> of
  at most 53 bits and an exponent \<open>e\<close> from \<open>-1074\<close> to \<open>971\<close>.
\<close>

datatype double = Double int int

text \<open>\<^verbatim>\<open>int.bit_length()\<close> of a non-negative integer.\<close>

function bit_length :: "nat \<Rightarrow> nat" where
  "bit_length n = (if n = 0 then 0 else Suc (bit_length (n div 2)))"
  by pat_completeness auto
termination
  by (relation "measure id") auto

declare bit_length.simps [simp del]

text \<open>
  For positive \<open>a\<close> and \<open>b\<close>, the integer \<open>k\<close> with \<open>2^k \<le> a / b < 2^(k+1)\<close>: the difference
  of the bit lengths, or one less.
\<close>

definition binary_exponent :: "nat \<Rightarrow> nat \<Rightarrow> int" where
  "binary_exponent a b =
     (let d = int (bit_length a) - int (bit_length b)
      in if b * 2 ^ nat d \<le> a * 2 ^ nat (- d) then d else d - 1)"

text \<open>The integer nearest to \<open>a / b\<close> for \<open>b > 0\<close>, a tie going to the even one.\<close>

definition round_half_even :: "int \<Rightarrow> int \<Rightarrow> int" where
  "round_half_even a b =
     (let f = a div b; r = a mod b
      in if 2 * r < b then f else if b < 2 * r then f + 1 else if even f then f else f + 1)"

text \<open>
  \<^verbatim>\<open>x / y\<close> for Python integers: \<^verbatim>\<open>ZeroDivisionError\<close> for a zero divisor, \<^verbatim>\<open>OverflowError\<close>
  when the rounded quotient is beyond the largest double, else the quotient rounded to
  53 bits (to a multiple of \<open>2^-1074\<close> in the subnormal range).
\<close>

definition true_divide :: "int \<Rightarrow> int \<Rightarrow> exn + double" where
  "true_divide x y =
     (if y = 0 then Inl (ZeroDivisionError ''division by zero'')
      else if x = 0 then Inr (Double 0 0)
      else
        (let a = nat \<bar>x\<bar>; b = nat \<bar>y\<bar>;
             e = max (- 1074) (binary_exponent a b - 52);
             m = round_half_even (int a * 2 ^ nat (- e)) (int b * 2 ^ nat e)
         in if 971 < e \<or> (e = 971 \<and> m = 2 ^ 53)
            then Inl (OverflowError ''integer division result too large for a float'')
            else Inr (Double (sgn x * sgn y * m) e)))"

text \<open>\<^verbatim>\<open>int(np.ceil(x))\<close> for a finite double.\<close>

definition ceil_double :: "double \<Rightarrow> int" where
  "ceil_double x = (case x of Double m e \<Rightarrow> - ((- (m * 2 ^ nat e)) div 2 ^ nat (- e)))"

text \<open>
  The number of chunks and the chunk size the loop runs with; without a chunk size there
  is one chunk of all rows.
\<close>

definition plan_chunks :: "int \<Rightarrow> int option \<Rightarrow> exn + int \<times> int" where
  "plan_chunks n_events chunksize =
     (case chunksize of
        None \<Rightarrow> Inr (1, n_events)
      | Some c \<Rightarrow> bind_exn (true_divide n_events c) (\<lambda>q. Inr (ceil_double q, c)))"

text \<open>
  \<^verbatim>\<open>for col in copy(columns): if group[col].ndim > 2: columns.remove(col)\<close>: the loop runs
  over a copy, \<^verbatim>\<open>remove\<close> deletes the first occurrence from the list itself. (When the
  caller passed the list, it is the caller's list that shrinks; the model returns the
  list the reader goes on with.)
\<close>

fun remove_high_rank :: "group \<Rightarrow> string list \<Rightarrow> string list \<Rightarrow> exn + string list" where
  "remove_high_rank grp [] columns = Inr columns"
| "remove_high_rank grp (col # rest) columns =
     bind_exn (getitem grp col) (\<lambda>d.
       remove_high_rank grp rest (if ndim d > 2 then remove1 col columns else columns))"

text \<open>
  The body up to the loop over the chunks. A StopIteration that escapes into a generator
  body is turned into a RuntimeError by Python (PEP 479).
\<close>

definition chunked_setup ::
  "filesystem \<Rightarrow> string \<Rightarrow> string \<Rightarrow> string list option \<Rightarrow> int option \<Rightarrow> exn + chunk_locals" where
  "chunked_setup fs file_path key columns chunksize =
     bind_exn (h5py_File fs file_path Mode_r_plus) (\<lambda>f.
       case map_of f key of
         None \<Rightarrow> Inl (group_missing key)
       | Some grp \<Rightarrow>
           (let columns = resolve_columns grp columns in
            bind_exn (case h5py_get_n_events fs file_path key of
                        Inl StopIteration \<Rightarrow> Inl (RuntimeError ''generator raised StopIteration'')
                      | r \<Rightarrow> r) (\<lambda>n_events.
            bind_exn (plan_chunks n_events chunksize) (\<lambda>(n_chunks, chunksize).
            bind_exn (remove_high_rank grp columns columns) (\<lambda>columns.
              Inr \<lparr>l_group = grp, l_columns = columns, l_n_events = n_events,
                   l_chunksize = chunksize, l_n_chunks = n_chunks\<rparr>)))))"

text \<open>The loop over the columns inside one chunk, and the body of the loop over the chunks.\<close>

fun chunk_columns ::
  "endianness \<Rightarrow> group \<Rightarrow> int \<Rightarrow> int \<Rightarrow> string list \<Rightarrow> table \<Rightarrow> exn + table" where
  "chunk_columns sys grp start stop [] df = Inr df"
| "chunk_columns sys grp start stop (col # rest) df =
     bind_exn (getitem grp col) (\<lambda>dataset.
     bind_exn (dataset_slice dataset start stop) (\<lambda>raw.
       let array = to_native_byteorder sys raw in
       bind_exn
         (if ndim array = 1 then df_setitem df col (cells sys array)
          else (case shape array of
                  n # w # inner \<Rightarrow> flatten_columns sys array col [0..<w] df
                | _ \<Rightarrow> Inl (IndexError ''tuple index out of range'')))
         (\<lambda>df'. chunk_columns sys grp start stop rest df')))"

definition make_chunk :: "endianness \<Rightarrow> chunk_locals \<Rightarrow> nat \<Rightarrow> exn + table \<times> int \<times> int" where
  "make_chunk sys st chunk =
     (let start = int chunk * l_chunksize st;
          stop = min (l_n_events st) ((int chunk + 1) * l_chunksize st);
          df = DataFrame_index (arange start stop)
      in bind_exn (chunk_columns sys (l_group st) start stop (l_columns st) df)
           (\<lambda>df'. Inr (df', start, stop)))"

text \<open>
  \<^verbatim>\<open>for chunk in range(n_chunks)\<close>, entered at chunk number \<open>chunk\<close>: the next \<^verbatim>\<open>yield\<close>,
  an exception, or the end of the body.
\<close>

definition run_to_yield ::
  "endianness \<Rightarrow> chunk_locals \<Rightarrow> nat \<Rightarrow> (table \<times> int \<times> int) step \<times> generator" where
  "run_to_yield sys st chunk =
     (if int chunk < l_n_chunks st then
        (case make_chunk sys st chunk of
           Inl e \<Rightarrow> (Raise e, Finished)
         | Inr item \<Rightarrow> (Yield item, Suspended st chunk))
      else (Stop, Finished))"

definition gen_next ::
  "endianness \<Rightarrow> filesystem \<Rightarrow> generator \<Rightarrow> (table \<times> int \<times> int) step \<times> generator" where
  "gen_next sys fs g =
     (case g of
        Created file_path key columns chunksize \<Rightarrow>
          (case chunked_setup fs file_path key columns chunksize of
             Inl e \<Rightarrow> (Raise e, Finished)
           | Inr st \<Rightarrow> run_to_yield sys st 0)
      | Suspended st chunk \<Rightarrow> run_to_yield sys st (Suc chunk)
      | Finished \<Rightarrow> (Stop, Finished))"

text \<open>
  Running a generator to its end, as \<^verbatim>\<open>for df, start, end in read_h5py_chunked(...)\<close>
  does: everything it yields, in order, and the exception that ended it, if one did.
\<close>

definition gen_rank :: "generator \<Rightarrow> nat \<times> nat" where
  "gen_rank g =
     (case g of
        Created _ _ _ _ \<Rightarrow> (1, 0)
      | Suspended st chunk \<Rightarrow> (0, nat (l_n_chunks st - int chunk))
      | Finished \<Rightarrow> (0, 0))"

function drain ::
  "endianness \<Rightarrow> filesystem \<Rightarrow> generator \<Rightarrow> (table \<times> int \<times> int) list \<times> exn option" where
  "drain sys fs g =
     (case gen_next sys fs g of
        (Yield item, g') \<Rightarrow> (let (rest, err) = drain sys fs g' in (item # rest, err))
      | (Raise e, g') \<Rightarrow> ([], Some e)
      | (Stop, g') \<Rightarrow> ([], None))"
  by pat_completeness auto
termination
  apply (relation "inv_image (less_than <*lex*> less_than) (\<lambda>(sys, fs, g). gen_rank g)")
   apply (intro wf_inv_image wf_lex_prod wf_less_than)
  subgoal for sys fs g x item g'
    by (cases g)
       (auto simp: gen_next_def run_to_yield_def gen_rank_def
             split: sum.splits if_splits)
  done

declare drain.simps [simp del]

section \<open>Concatenating tables\<close>

text \<open>
  \<^verbatim>\<open>pd.concat\<close> of frames that have the same columns: the indexes one after the other,
  and in every column of the first frame the cells of that column in each frame in turn
  (NaN where a frame lacks the column). Concatenating no frame at all raises.
\<close>

definition append_table :: "table \<Rightarrow> table \<Rightarrow> table" where
  "append_table t u =
     \<lparr>index = index t @ index u,
      table_columns = map (\<lambda>(name, vals).
                  (name, vals @ (case map_of (table_columns u) name of
                                   Some vals' \<Rightarrow> vals'
                                 | None \<Rightarrow> replicate (length (index u)) NaN)))
                (table_columns t)\<rparr>"

definition concat_tables :: "table list \<Rightarrow> exn + table" where
  "concat_tables ts =
     (case ts of
        [] \<Rightarrow> Inl (ValueError ''No objects to concatenate'')
      | t # rest \<Rightarrow> Inr (foldl append_table t rest))"

section \<open>The dispatchers\<close>

text \<open>
  \<^verbatim>\<open>os.path.splitext\<close>: the extension starts at the last dot of the path, provided that
  dot comes after the last slash and after a character of the file name that is not a
  dot. \<^verbatim>\<open>p.rfind(c)\<close> is the last position of \<open>c\<close>, or \<open>-1\<close>.
\<close>

definition rfind :: "string \<Rightarrow> char \<Rightarrow> int" where
  "rfind p c =
     (case filter (\<lambda>i. p ! i = c) (rev [0..<length p]) of
        [] \<Rightarrow> - 1
      | i # _ \<Rightarrow> int i)"

definition splitext :: "string \<Rightarrow> string \<times> string" where
  "splitext p =
     (let sepIndex = rfind p (CHR ''/'');
          dotIndex = rfind p (CHR ''.'')
      in if dotIndex > sepIndex
            \<and> list_ex (\<lambda>filenameIndex. p ! filenameIndex \<noteq> CHR ''.'')
                 [nat (sepIndex + 1)..<nat dotIndex]
         then (take (nat dotIndex) p, drop (nat dotIndex) p)
         else (p, []))"

text \<open>
  \<^verbatim>\<open>'{}'.format(allowed_extensions)\<close>: the \<^verbatim>\<open>str\<close> of a tuple of strings, which holds the
  \<^verbatim>\<open>repr\<close> of each. \<^verbatim>\<open>repr\<close> of a string puts it between single quotes, or between double
  quotes when it contains a single quote and no double quote. Inside, the quote in use
  and the backslash get a backslash in front, tab, newline and carriage return are
  written as a backslash and \<open>t\<close>, \<open>n\<close>, \<open>r\<close>, and every other character that is not
  printable as a backslash, \<open>x\<close> and two hexadecimal digits. The characters of a string
  are the code points below 256 here; of these \<^verbatim>\<open>str.isprintable\<close> excludes the control
  characters, the no-break space and the soft hyphen.
\<close>

definition hex_digit :: "nat \<Rightarrow> char" where
  "hex_digit d = (if d < 10 then char_of (48 + d) else char_of (87 + d))"

definition isprintable :: "char \<Rightarrow> bool" where
  "isprintable ch =
     (let n = of_char ch :: nat in \<not> (n < 32 \<or> (127 \<le> n \<and> n \<le> 160) \<or> n = 173))"

definition repr_char :: "char \<Rightarrow> char \<Rightarrow> string" where
  "repr_char quote ch =
     (if ch = quote \<or> ch = CHR 0x5C then [CHR 0x5C, ch]
      else if ch = CHR 0x09 then [CHR 0x5C, CHR ''t'']
      else if ch = CHR 0x0A then [CHR 0x5C, CHR ''n'']
      else if ch = CHR 0x0D then [CHR 0x5C, CHR ''r'']
      else if isprintable ch then [ch]
      else [CHR 0x5C, CHR ''x'', hex_digit (of_char ch div 16), hex_digit (of_char ch mod 16)])"

definition py_repr :: "string \<Rightarrow> string" where
  "py_repr s =
     (let quote = (if CHR 0x27 \<in> set s \<and> CHR 0x22 \<notin> set s then CHR 0x22 else CHR 0x27)
      in [quote] @ concat (map (repr_char quote) s) @ [quote])"

fun join :: "string \<Rightarrow> string list \<Rightarrow> string" where
  "join sep [] = []"
| "join sep [x] = x"
| "join sep (x # y # rest) = x @ sep @ join sep (y # rest)"

definition str_tuple :: "string list \<Rightarrow> string" where
  "str_tuple xs =
     (case xs of
        [x] \<Rightarrow> ''('' @ py_repr x @ '',)''
      | _ \<Rightarrow> ''('' @ join '', '' (map py_repr xs) @ '')'')"

definition allowed_extensions :: "string list" where
  "allowed_extensions = [''.hdf'', ''.hdf5'', ''.h5'', ''.json'', ''.jsonl'', ''.jsonlines'', ''.csv'']"

definition check_extension :: "string \<Rightarrow> string list \<Rightarrow> exn + unit" where
  "check_extension file_path allowed =
     (let extension = snd (splitext file_path)
      in if extension \<notin> set allowed
         then Inl (IOError (''Allowed formats: '' @ str_tuple allowed))
         else Inr ())"

text \<open>
  The library calls behind \<^verbatim>\<open>read_data\<close> are parameters: \<^verbatim>\<open>pd.read_hdf\<close> (with the key and
  the columns), \<^verbatim>\<open>json.load\<close> followed by \<^verbatim>\<open>pd.DataFrame\<close>, and \<^verbatim>\<open>pd.read_json\<close> with
  \<^verbatim>\<open>lines=True\<close>, each returning a table or raising.
\<close>

record readers =
  read_hdf :: "string \<Rightarrow> string \<Rightarrow> string list option \<Rightarrow> exn + table"
  json_load :: "string \<Rightarrow> exn + table"
  read_json_lines :: "string \<Rightarrow> exn + table"

definition read_pandas_hdf5 :: "readers \<Rightarrow> string \<Rightarrow> string \<Rightarrow> string list option \<Rightarrow> exn + table" where
  "read_pandas_hdf5 lib file_path key columns = read_hdf lib file_path key columns"

text \<open>\<^verbatim>\<open>key or default\<close>: the default when \<^verbatim>\<open>key\<close> is \<^verbatim>\<open>None\<close> or the empty string.\<close>

definition key_or :: "string option \<Rightarrow> string \<Rightarrow> string" where
  "key_or key dflt = (case key of None \<Rightarrow> dflt | Some k \<Rightarrow> if k = [] then dflt else k)"

text \<open>What \<^verbatim>\<open>except (TypeError, ValueError)\<close> catches.\<close>

definition caught :: "exn \<Rightarrow> bool" where
  "caught e = (case e of TypeError _ \<Rightarrow> True | ValueError _ \<Rightarrow> True | _ \<Rightarrow> False)"

definition read_data ::
  "readers \<Rightarrow> endianness \<Rightarrow> filesystem \<Rightarrow> string \<Rightarrow> string option \<Rightarrow> string list option \<Rightarrow> exn + table" where
  "read_data lib sys fs file_path key columns =
     (let extension = snd (splitext file_path)
      in if extension \<in> set [''.hdf'', ''.hdf5'', ''.h5''] then
           (case read_pandas_hdf5 lib file_path (key_or key ''table'') columns of
              Inr df \<Rightarrow> Inr df
            | Inl e \<Rightarrow>
                if caught e then read_h5py sys fs file_path (key_or key ''events'') columns
                else Inl e)
         else if extension = ''.json'' then json_load lib file_path
         else if extension \<in> set [''.jsonl'', ''.jsonlines''] then read_json_lines lib file_path
         else Inl (NotImplementedError (''Unknown data file extension '' @ extension)))"

text \<open>
  \<^verbatim>\<open>write_data\<close> hands the table to one pandas writer; the model returns which call is
  made, or the exception of the last branch.
\<close>

datatype write_call =
    To_hdf table string string
  | To_json table string
  | To_json_lines table string
  | To_csv table string

definition write_data :: "table \<Rightarrow> string \<Rightarrow> string \<Rightarrow> exn + write_call" where
  "write_data df file_path key =
     (let extension = snd (splitext file_path)
      in if extension \<in> set [''.hdf'', ''.hdf5'', ''.h5''] then Inr (To_hdf df file_path key)
         else if extension = ''.json'' then Inr (To_json df file_path)
         else if extension \<in> set [''.jsonl'', ''.jsonline''] then Inr (To_json_lines df file_path)
         else if extension = ''.csv'' then Inr (To_csv df file_path)
         else Inl (IOError (''cannot write tabular data with format '' @ extension
                     @ ''. Allowed formats: '' @ str_tuple allowed_extensions)))"

section \<open>Notions for the statements and proofs\<close>

text \<open>
  A dataset has \<open>N\<close> rows when its first axis has length \<open>N\<close> and it holds as many
  elements as its shape says.
\<close>

definition has_rows :: "nat \<Rightarrow> dataset \<Rightarrow> bool" where
  "has_rows N d =
     (case shape d of
        [] \<Rightarrow> False
      | n # inner \<Rightarrow> n = N \<and> length (items d) = prod_list (shape d))"

text \<open>
  Both readers come down to a list of assignments \<^verbatim>\<open>df[name] = values\<close> carried out in
  order. \<open>assign_all\<close> carries a list out, \<open>put\<close> is the effect of one assignment on the
  columns. A frame fits values of length \<open>N\<close> when it is the empty frame or its index has
  length \<open>N\<close>; after the first assignment its index is \<open>settled_index\<close>.
\<close>

fun assign_all :: "table \<Rightarrow> (string \<times> cell list) list \<Rightarrow> exn + table" where
  "assign_all df [] = Inr df"
| "assign_all df (a # rest) = bind_exn (df_setitem df (fst a) (snd a)) (\<lambda>df'. assign_all df' rest)"

definition put :: "(string \<times> cell list) list \<Rightarrow> string \<times> cell list \<Rightarrow> (string \<times> cell list) list" where
  "put cs a = AList.update (fst a) (snd a) cs"

definition fits :: "nat \<Rightarrow> table \<Rightarrow> bool" where
  "fits N df = ((index df = [] \<and> table_columns df = []) \<or> length (index df) = N)"

definition settled_index :: "nat \<Rightarrow> table \<Rightarrow> int list" where
  "settled_index N df = (if index df = [] then arange 0 (int N) else index df)"

text \<open>
  The assignments one array gives rise to under the name \<open>col\<close>, and those of a list of
  columns of a group read whole.
\<close>

definition column_assignments :: "endianness \<Rightarrow> string \<Rightarrow> ndarray \<Rightarrow> (string \<times> cell list) list" where
  "column_assignments sys col array =
     (if ndim array = 1 then [(col, cells sys array)]
      else if ndim array = 2 then
        map (\<lambda>i. (col @ ''_'' @ str_nat i, cells sys (take_column array i))) [0..<shape array ! 1]
      else [])"

definition group_assignments :: "endianness \<Rightarrow> group \<Rightarrow> string list \<Rightarrow> (string \<times> cell list) list" where
  "group_assignments sys grp cols =
     concat (map (\<lambda>col. case map_of grp col of
                          None \<Rightarrow> []
                        | Some d \<Rightarrow> column_assignments sys col (to_native_byteorder sys d)) cols)"

text \<open>
  The rows \<open>s, ..., e - 1\<close> of a dataset and of a column, and the chunk that holds these
  rows of the columns \<open>C\<close>.
\<close>

definition slice_array :: "dataset \<Rightarrow> nat \<Rightarrow> nat \<Rightarrow> ndarray" where
  "slice_array d s e =
     \<lparr>byteorder = byteorder d, shape = (e - s) # tl (shape d),
      items = take ((e - s) * prod_list (tl (shape d))) (drop (s * prod_list (tl (shape d))) (items d))\<rparr>"

definition rows :: "nat \<Rightarrow> nat \<Rightarrow> string \<times> cell list \<Rightarrow> string \<times> cell list" where
  "rows s e a = (fst a, take (e - s) (drop s (snd a)))"

definition chunk_table :: "(string \<times> cell list) list \<Rightarrow> nat \<Rightarrow> nat \<Rightarrow> table \<times> int \<times> int" where
  "chunk_table C s e =
     (\<lparr>index = arange (int s) (int e), table_columns = map (rows s e) C\<rparr>, int s, int e)"

text \<open>The number a string of decimal digits stands for.\<close>

definition digits_value :: "string \<Rightarrow> nat" where
  "digits_value s = foldl (\<lambda>acc ch. 10 * acc + (of_char ch - 48)) 0 s"

section \<open>Example inputs\<close>

text \<open>
  A file system with a readable and writable container and one the caller may only read,
  and library readers for which \<^verbatim>\<open>pd.read_hdf\<close> raises a TypeError on the key \<^verbatim>\<open>'table'\<close>,
  returns a table without columns on the key \<^verbatim>\<open>'frame'\<close> and raises a KeyError on every
  other key.
\<close>

definition example_fs :: filesystem where
  "example_fs =
     [''run.hdf5'' \<mapsto> \<lparr>may_read = True, may_write = True,
         groups = [(''events'', [(''energy'', \<lparr>byteorder = Bo_little, shape = [2], items = [[1], [2]]\<rparr>)])]\<rparr>,
      ''locked.hdf5'' \<mapsto> \<lparr>may_read = True, may_write = False,
         groups = [(''events'', [(''energy'', \<lparr>byteorder = Bo_little, shape = [2], items = [[1], [2]]\<rparr>)])]\<rparr>]"

definition example_lib :: readers where
  "example_lib =
     \<lparr>read_hdf = (\<lambda>file_path key columns.
          if key = ''table'' then Inl (TypeError ''cannot create a storer'')
          else if key = ''frame'' then Inr DataFrame
          else Inl (KeyError key)),
      json_load = (\<lambda>file_path. Inl (OtherError ''not json'')),
      read_json_lines = (\<lambda>file_path. Inl (OtherError ''not json''))\<rparr>"

text \<open>
  A container whose group \<^verbatim>\<open>events\<close> holds the rank-1 dataset \<^verbatim>\<open>energy\<close> (10 rows of
  two-byte little-endian values) and the rank-2 dataset \<^verbatim>\<open>position\<close> (10 rows of width 2,
  big-endian), and whose group \<^verbatim>\<open>vectors\<close> holds the rank-2 dataset alone.
\<close>

definition example_energy :: dataset where
  "example_energy =
     \<lparr>byteorder = Bo_little, shape = [10],
      items = [[10, 0], [11, 0], [12, 0], [13, 0], [14, 0], [15, 0], [16, 0], [17, 0], [18, 0], [19, 0]]\<rparr>"

definition example_position :: dataset where
  "example_position =
     \<lparr>byteorder = Bo_big, shape = [10, 2],
      items = [[0, 0], [0, 1], [0, 2], [0, 3], [0, 4], [0, 5], [0, 6], [0, 7], [0, 8], [0, 9],
               [1, 0], [1, 1], [1, 2], [1, 3], [1, 4], [1, 5], [1, 6], [1, 7], [1, 8], [1, 9]]\<rparr>"

definition example_events :: filesystem where
  "example_events =
     [''events.h5'' \<mapsto> \<lparr>may_read = True, may_write = True,
         groups = [(''events'', [(''energy'', example_energy), (''position'', example_position)]),
                   (''vectors'', [(''position'', example_position)])]\<rparr>]"

text \<open>
  A container whose group \<^verbatim>\<open>events\<close> holds the rank-2 dataset \<^verbatim>\<open>x\<close> (2 rows of width 2) and
  a rank-1 dataset that has the name of the first flattened column of \<^verbatim>\<open>x\<close>.
\<close>

definition example_clash :: filesystem where
  "example_clash =
     [''clash.h5'' \<mapsto> \<lparr>may_read = True, may_write = True,
         groups = [(''events'',
           [(''x'', \<lparr>byteorder = Bo_little, shape = [2, 2],
                     items = [[1, 0], [2, 0], [3, 0], [4, 0]]\<rparr>),
            (''x_0'', \<lparr>byteorder = Bo_little, shape = [2], items = [[7, 0], [8, 0]]\<rparr>)])]\<rparr>]"

section \<open>Byte-order normalisation\<close>

lemma item_value_unfold:
  "item_value sys bo =
     (\<lambda>bs. case bo of Bo_not_applicable \<Rightarrow> bs | Bo_little \<Rightarrow> bs | Bo_big \<Rightarrow> rev bs
           | Bo_native \<Rightarrow> (case sys of little \<Rightarrow> bs | big \<Rightarrow> rev bs))"
  by (rule ext) (simp add: item_value_def)

lemma to_native_byteorder_values:
  "array_values sys (to_native_byteorder sys a) = array_values sys a"
  by (cases "byteorder a"; cases sys)
     (simp_all add: to_native_byteorder_def array_values_def newbyteorder_def byteswap_def
        item_value_unfold native_byteorder_def comp_def)

lemma to_native_byteorder_shape: "shape (to_native_byteorder sys a) = shape a"
  by (simp add: to_native_byteorder_def newbyteorder_def byteswap_def)

lemma to_native_byteorder_ndim: "ndim (to_native_byteorder sys a) = ndim a"
  by (simp add: ndim_def to_native_byteorder_shape)

lemma to_native_byteorder_length: "length (items (to_native_byteorder sys a)) = length (items a)"
  by (simp add: to_native_byteorder_def newbyteorder_def byteswap_def)

lemma to_native_byteorder_twice:
  "to_native_byteorder sys (to_native_byteorder sys x) = to_native_byteorder sys x"
  by (cases "byteorder x"; cases sys)
     (simp_all add: to_native_byteorder_def newbyteorder_def byteswap_def native_byteorder_def)

text \<open>
  C7. \<^verbatim>\<open>to_native_byteorder\<close> is a total function (it has no failing branch); applying it
  twice gives the array that applying it once gives, element for element; and the values
  of its result are the values of its argument.
\<close>

theorem to_native_byteorder_idempotent_value_preserving:
  "to_native_byteorder sys (to_native_byteorder sys x) = to_native_byteorder sys x
   \<and> array_values sys (to_native_byteorder sys (to_native_byteorder sys x))
       = array_values sys (to_native_byteorder sys x)
   \<and> array_values sys (to_native_byteorder sys x) = array_values sys x"
  by (simp add: to_native_byteorder_twice to_native_byteorder_values)

theorem to_native_byteorder_idempotent_value_preserving_witness:
  "to_native_byteorder little
     (to_native_byteorder little \<lparr>byteorder = Bo_big, shape = [2], items = [[0, 1], [2, 3]]\<rparr>)
     = \<lparr>byteorder = Bo_little, shape = [2], items = [[1, 0], [3, 2]]\<rparr>
   \<and> array_values little
       (to_native_byteorder little \<lparr>byteorder = Bo_big, shape = [2], items = [[0, 1], [2, 3]]\<rparr>)
     = [[1, 0], [3, 2]]
   \<and> array_values little \<lparr>byteorder = Bo_big, shape = [2], items = [[0, 1], [2, 3]]\<rparr>
     = [[1, 0], [3, 2]]"
  using to_native_byteorder_idempotent_value_preserving
          [of little "\<lparr>byteorder = Bo_big, shape = [2], items = [[0, 1], [2, 3]]\<rparr>"]
  by (simp add: to_native_byteorder_def newbyteorder_def byteswap_def native_byteorder_def
        array_values_def item_value_def)

text \<open>
  C6, as the claim states it, fails: an array whose tag is not-applicable (\<^verbatim>\<open>'|'\<close>, as for
  one-byte integers and byte strings) is neither \<^verbatim>\<open>'='\<close> nor the host's own symbol, so
  the function returns a new array object, not the one it was given.
\<close>

theorem to_native_byteorder_not_applicable_copies:
  "to_native_byteorder_ref little
     [\<lparr>byteorder = Bo_not_applicable, shape = [2], items = [[1], [2]]\<rparr>] 0
   = Some ([\<lparr>byteorder = Bo_not_applicable, shape = [2], items = [[1], [2]]\<rparr>,
            \<lparr>byteorder = Bo_not_applicable, shape = [2], items = [[1], [2]]\<rparr>,
            \<lparr>byteorder = Bo_not_applicable, shape = [2], items = [[1], [2]]\<rparr>], 2)
   \<and> to_native_byteorder_ref little
       [\<lparr>byteorder = Bo_not_applicable, shape = [2], items = [[1], [2]]\<rparr>] 0
     \<noteq> Some ([\<lparr>byteorder = Bo_not_applicable, shape = [2], items = [[1], [2]]\<rparr>], 0)"
  by (simp add: to_native_byteorder_ref_def byteswap_ref_def newbyteorder_ref_def alloc_def
        native_byteorder_def byteswap_def newbyteorder_def)

text \<open>
  C6, amended. For an array whose tag is \<^verbatim>\<open>'='\<close> or the host's own symbol the function
  returns the reference it was given and allocates nothing. For every other tag,
  not-applicable included, it returns a newly allocated array, leaves the arrays that
  existed as they were, and the new array is the normalised value of the old one.
\<close>

theorem to_native_byteorder_ref_same_or_copy:
  assumes "array < length h"
  shows "(byteorder (h ! array) \<in> {Bo_native, native_byteorder sys} \<longrightarrow>
            to_native_byteorder_ref sys h array = Some (h, array))
       \<and> (byteorder (h ! array) \<notin> {Bo_native, native_byteorder sys} \<longrightarrow>
            (\<exists>h' r. to_native_byteorder_ref sys h array = Some (h', r)
               \<and> length h \<le> r \<and> r < length h' \<and> take (length h) h' = h
               \<and> h' ! r = to_native_byteorder sys (h ! array)))"
  using assms
  by (auto simp: to_native_byteorder_ref_def byteswap_ref_def newbyteorder_ref_def alloc_def
        to_native_byteorder_def nth_append)

theorem to_native_byteorder_ref_same_or_copy_witness:
  "to_native_byteorder_ref little
     [\<lparr>byteorder = Bo_native, shape = [1], items = [[1, 2]]\<rparr>,
      \<lparr>byteorder = Bo_big, shape = [1], items = [[1, 2]]\<rparr>] 0
   = Some ([\<lparr>byteorder = Bo_native, shape = [1], items = [[1, 2]]\<rparr>,
            \<lparr>byteorder = Bo_big, shape = [1], items = [[1, 2]]\<rparr>], 0)
   \<and> to_native_byteorder_ref little
       [\<lparr>byteorder = Bo_native, shape = [1], items = [[1, 2]]\<rparr>,
        \<lparr>byteorder = Bo_big, shape = [1], items = [[1, 2]]\<rparr>] 1
     = Some ([\<lparr>byteorder = Bo_native, shape = [1], items = [[1, 2]]\<rparr>,
              \<lparr>byteorder = Bo_big, shape = [1], items = [[1, 2]]\<rparr>,
              \<lparr>byteorder = Bo_big, shape = [1], items = [[2, 1]]\<rparr>,
              \<lparr>byteorder = Bo_little, shape = [1], items = [[2, 1]]\<rparr>], 3)"
  using to_native_byteorder_ref_same_or_copy
          [of 0 "[\<lparr>byteorder = Bo_native, shape = [1], items = [[1, 2]]\<rparr>,
                  \<lparr>byteorder = Bo_big, shape = [1], items = [[1, 2]]\<rparr>]" little]
        to_native_byteorder_ref_same_or_copy
          [of 1 "[\<lparr>byteorder = Bo_native, shape = [1], items = [[1, 2]]\<rparr>,
                  \<lparr>byteorder = Bo_big, shape = [1], items = [[1, 2]]\<rparr>]" little]
  by (simp add: native_byteorder_def to_native_byteorder_ref_def byteswap_ref_def
        newbyteorder_ref_def alloc_def newbyteorder_def byteswap_def)

section \<open>Errors of the readers and dispatchers\<close>

lemma open_ok:
  "fs file_path = Some hfile \<Longrightarrow> may_read hfile \<Longrightarrow> may_write hfile \<Longrightarrow>
   h5py_File fs file_path mode = Inr (groups hfile)"
  by (simp add: h5py_File_def)

lemma drain_Raise: "gen_next sys fs g = (Raise e, g') \<Longrightarrow> drain sys fs g = ([], Some e)"
  by (subst drain.simps) simp

lemma drain_Stop: "gen_next sys fs g = (Stop, g') \<Longrightarrow> drain sys fs g = ([], None)"
  by (subst drain.simps) simp

lemma drain_Yield:
  "gen_next sys fs g = (Yield item, g') \<Longrightarrow>
   drain sys fs g = (item # fst (drain sys fs g'), snd (drain sys fs g'))"
  by (subst drain.simps) (simp add: case_prod_unfold Let_def)

text \<open>
  C3, as the claim states it, fails: calling the generator function raises nothing, it
  returns a generator object; the error for the missing group comes out of the first
  \<^verbatim>\<open>next\<close>.
\<close>

theorem chunked_missing_group_call_returns:
  "read_h5py_chunked ''run.hdf5'' ''nope'' None None = Created ''run.hdf5'' ''nope'' None None
   \<and> gen_next little example_fs (read_h5py_chunked ''run.hdf5'' ''nope'' None None)
       = (Raise (group_missing ''nope''), Finished)"
  by (simp add: read_h5py_chunked_def gen_next_def chunked_setup_def h5py_File_def example_fs_def
        bind_exn_def)

text \<open>
  C3, amended. For a container the caller can open and a key that names none of its
  groups, the call returns a generator; requesting its first element raises the error
  \<^verbatim>\<open>File does not contain group "key"\<close>, and the generator yields no chunk at all.
\<close>

theorem chunked_missing_group_raises_on_first_next:
  assumes "fs file_path = Some hfile" and "may_read hfile" and "may_write hfile"
    and "map_of (groups hfile) key = None"
  shows "gen_next sys fs (read_h5py_chunked file_path key columns chunksize)
           = (Raise (group_missing key), Finished)
       \<and> drain sys fs (read_h5py_chunked file_path key columns chunksize)
           = ([], Some (group_missing key))"
proof -
  have "chunked_setup fs file_path key columns chunksize = Inl (group_missing key)"
    using assms by (simp add: chunked_setup_def open_ok bind_exn_def)
  then have "gen_next sys fs (read_h5py_chunked file_path key columns chunksize)
           = (Raise (group_missing key), Finished)"
    by (simp add: gen_next_def read_h5py_chunked_def)
  then show ?thesis by (simp add: drain_Raise)
qed

theorem chunked_missing_group_raises_on_first_next_witness:
  "drain little example_fs (read_h5py_chunked ''run.hdf5'' ''nope'' None (Some 4))
           = ([], Some (IOError (''File does not contain group '' @ [CHR 0x22] @ ''nope'' @ [CHR 0x22])))"
  using chunked_missing_group_raises_on_first_next
    [of example_fs "''run.hdf5''" "the (example_fs ''run.hdf5'')" "''nope''" little None "Some 4"]
  by (simp add: example_fs_def group_missing_def)

text \<open>
  C10. The three raw-container readers open the file with mode \<^verbatim>\<open>'r+'\<close>. On an existing
  file that the caller may not write, each fails at the open (the chunked reader when
  its first element is requested), although opening with mode \<^verbatim>\<open>'r'\<close> succeeds when the
  caller may read the file.
\<close>

theorem read_write_mode_blocks_unwritable:
  assumes "fs file_path = Some hfile" and "\<not> may_write hfile"
  shows "read_h5py sys fs file_path key columns
           = Inl (IOError (''Unable to open file (Permission denied): '' @ file_path))
       \<and> h5py_get_n_events fs file_path key
           = Inl (IOError (''Unable to open file (Permission denied): '' @ file_path))
       \<and> gen_next sys fs (read_h5py_chunked file_path key columns chunksize)
           = (Raise (IOError (''Unable to open file (Permission denied): '' @ file_path)), Finished)
       \<and> (may_read hfile \<longrightarrow> h5py_File fs file_path Mode_r = Inr (groups hfile))"
  using assms
  by (simp add: read_h5py_def h5py_get_n_events_def gen_next_def read_h5py_chunked_def
        chunked_setup_def h5py_File_def bind_exn_def)

theorem read_write_mode_blocks_unwritable_witness:
  "read_h5py little example_fs ''locked.hdf5'' ''events'' None
           = Inl (IOError ''Unable to open file (Permission denied): locked.hdf5'')
       \<and> h5py_get_n_events example_fs ''locked.hdf5'' ''events''
           = Inl (IOError ''Unable to open file (Permission denied): locked.hdf5'')
       \<and> gen_next little example_fs (read_h5py_chunked ''locked.hdf5'' ''events'' None None)
           = (Raise (IOError ''Unable to open file (Permission denied): locked.hdf5''), Finished)
       \<and> h5py_File example_fs ''locked.hdf5'' Mode_r
           = Inr [(''events'', [(''energy'',
               \<lparr>byteorder = Bo_little, shape = [2], items = [[1], [2]]\<rparr>)])]"
  using read_write_mode_blocks_unwritable
    [of example_fs "''locked.hdf5''" "the (example_fs ''locked.hdf5'')" little "''events''" None None]
  by (simp add: example_fs_def)

text \<open>
  C8. For a path whose extension is \<^verbatim>\<open>.hdf\<close>, \<^verbatim>\<open>.hdf5\<close> or \<^verbatim>\<open>.h5\<close>, \<^verbatim>\<open>read_data\<close> first reads
  the table object under \<^verbatim>\<open>key or 'table'\<close>. A table is returned as it is; a TypeError or
  ValueError makes the result that of \<^verbatim>\<open>read_h5py\<close> under \<^verbatim>\<open>key or 'events'\<close>; every other
  exception is the result, unchanged.
\<close>

theorem read_data_fallback:
  assumes "snd (splitext file_path) \<in> {''.hdf'', ''.hdf5'', ''.h5''}"
  shows "(\<forall>df. read_pandas_hdf5 lib file_path (key_or key ''table'') columns = Inr df \<longrightarrow>
            read_data lib sys fs file_path key columns = Inr df)
       \<and> (\<forall>m. read_pandas_hdf5 lib file_path (key_or key ''table'') columns \<in> {Inl (TypeError m), Inl (ValueError m)} \<longrightarrow>
            read_data lib sys fs file_path key columns
              = read_h5py sys fs file_path (key_or key ''events'') columns)
       \<and> (\<forall>e. read_pandas_hdf5 lib file_path (key_or key ''table'') columns = Inl e
              \<and> (\<forall>m. e \<noteq> TypeError m \<and> e \<noteq> ValueError m) \<longrightarrow>
            read_data lib sys fs file_path key columns = Inl e)"
  using assms
  by (auto simp: read_data_def Let_def caught_def split: sum.splits exn.splits)


lemma example_splitext: "snd (splitext ''run.hdf5'') = ''.hdf5''"
  by code_simp

theorem read_data_fallback_witness:
  "read_data example_lib little example_fs ''run.hdf5'' (Some ''frame'') None = Inr DataFrame
   \<and> read_data example_lib little example_fs ''run.hdf5'' None None
     = read_h5py little example_fs ''run.hdf5'' ''events'' None
   \<and> read_data example_lib little example_fs ''run.hdf5'' (Some ''muons'') None
     = Inl (KeyError ''muons'')"
  using read_data_fallback [of "''run.hdf5''" example_lib "Some ''frame''" None little example_fs]
    read_data_fallback [of "''run.hdf5''" example_lib None None little example_fs]
    read_data_fallback [of "''run.hdf5''" example_lib "Some ''muons''" None little example_fs]
  by (simp add: example_splitext example_lib_def read_pandas_hdf5_def key_or_def)

lemma example_txt: "snd (splitext ''data.txt'') = ''.txt''"
  by code_simp


lemma message_names:
  "sublist x (exn_message (NotImplementedError (a @ x)))"
  "sublist x (exn_message (IOError (a @ x @ b)))"
  "sublist y (exn_message (IOError (a @ x @ b @ y)))"
  "sublist x (exn_message (IOError (a @ c @ x @ b)))"
  using sublist_append_leftI [of x a] sublist_appendI [of x a b]
    sublist_append_leftI [of y "a @ x @ b"] sublist_appendI [of x "a @ c" b]
  by (simp_all add: exn_message_def)


lemma example_txt_tuple:
  "str_tuple [''.csv''] = ''('.csv',)''"
  by code_simp

lemma example_quoted_tuple:
  "str_tuple [''a'b''] = ''('' @ [CHR 0x22] @ ''a'b'' @ [CHR 0x22] @ '',)''"
  by code_simp


section \<open>The loops of the readers as column assignments\<close>

text \<open>
  The loop of \<^verbatim>\<open>read_h5py\<close> and the loop inside a chunk both carry out a list of column
  assignments; the assignments of a chunk are those of the whole read, restricted to the
  rows of the chunk.
\<close>

lemma bind_exn_simps [simp]:
  "bind_exn (Inl e) f = Inl e" "bind_exn (Inr x) f = f x"
  by (simp_all add: bind_exn_def)

lemma bind_exn_Inr [simp]: "bind_exn m Inr = m"
  by (simp add: bind_exn_def split: sum.splits)

lemma bind_exn_assoc [simp]:
  "bind_exn (bind_exn m f) g = bind_exn m (\<lambda>x. bind_exn (f x) g)"
  by (simp add: bind_exn_def split: sum.splits)

lemma length_arange [simp]: "length (arange a b) = nat (b - a)"
  by (simp add: arange_def)

lemma arange_empty [simp]: "arange a b = [] \<longleftrightarrow> b \<le> a"
  by (auto simp: arange_def)

lemma arange_same [simp]: "arange a a = []"
  by simp

lemma df_setitem_fits:
  assumes "length vals = N" and "fits N df"
  shows "df_setitem df name vals
           = Inr \<lparr>index = settled_index N df,
                  table_columns = AList.update name vals (table_columns df)\<rparr>"
  using assms by (cases df) (auto simp: df_setitem_def fits_def settled_index_def)

lemma settled_fits:
  assumes "fits N df"
  shows "fits N \<lparr>index = settled_index N df, table_columns = cs\<rparr>"
    and "settled_index N \<lparr>index = settled_index N df, table_columns = cs\<rparr> = settled_index N df"
  using assms by (auto simp: fits_def settled_index_def)

lemma assign_all_closed:
  assumes "\<forall>a\<in>set as. length (snd a) = N" and "fits N df"
  shows "assign_all df as
           = Inr \<lparr>index = (if as = [] then index df else settled_index N df),
                  table_columns = foldl put (table_columns df) as\<rparr>"
  using assms
proof (induction as arbitrary: df)
  case Nil
  then show ?case by simp
next
  case (Cons a as)
  let ?df1 = "\<lparr>index = settled_index N df, table_columns = put (table_columns df) a\<rparr>"
  have step: "df_setitem df (fst a) (snd a) = Inr ?df1"
    using Cons.prems by (simp add: df_setitem_fits put_def)
  have "assign_all ?df1 as
          = Inr \<lparr>index = (if as = [] then index ?df1 else settled_index N ?df1),
                 table_columns = foldl put (table_columns ?df1) as\<rparr>"
    using Cons.prems by (intro Cons.IH) (simp_all add: settled_fits)
  then show ?case
    using Cons.prems by (simp add: step settled_fits)
qed

lemma assign_all_append:
  "assign_all df (as @ bs) = bind_exn (assign_all df as) (\<lambda>df'. assign_all df' bs)"
  by (induction as arbitrary: df) (simp_all add: bind_exn_def split: sum.splits)

lemma ndim_take_column [simp]: "ndim (take_column array i) = 1"
  by (simp add: ndim_def take_column_def Let_def)

lemma flatten_as_assign:
  "flatten_columns sys array col ixs
     = (\<lambda>df. assign_all df
          (map (\<lambda>i. (col @ ''_'' @ str_nat i, cells sys (take_column array i))) ixs))"
proof (induction ixs)
  case Nil
  show ?case by (rule ext) simp
next
  case (Cons i ixs)
  show ?case by (rule ext) (simp add: Cons.IH df_setitem_array_def)
qed

lemma read_h5py_columns_as_assign:
  assumes "\<forall>col\<in>set cols. \<exists>d. map_of grp col = Some d \<and> shape d \<noteq> []"
  shows "read_h5py_columns sys grp cols df
           = assign_all df (concat (map (\<lambda>col. column_assignments sys col
                 (to_native_byteorder sys (the (map_of grp col)))) cols))"
  using assms
proof (induction cols arbitrary: df)
  case Nil
  then show ?case by simp
next
  case (Cons col cols)
  then obtain d where d: "map_of grp col = Some d" "shape d \<noteq> []" by auto
  then have all: "dataset_all d = Inr d"
    by (cases "shape d") (simp_all add: dataset_all_def)
  have IH: "read_h5py_columns sys grp cols df'
           = assign_all df' (concat (map (\<lambda>col. column_assignments sys col
                 (to_native_byteorder sys (the (map_of grp col)))) cols))" for df'
    using Cons by simp
  show ?case
    by (simp add: d all getitem_def assign_all_append column_assignments_def
          flatten_as_assign IH [abs_def] Let_def)
qed

lemma slice_bounds_nat:
  "s \<le> e \<Longrightarrow> e \<le> n \<Longrightarrow> slice_bounds n (int s) (int e) = (s, e)"
  by (simp add: slice_bounds_def Let_def)

lemma dataset_slice_nat:
  assumes "shape d = n # inner" and "s \<le> e" and "e \<le> n"
  shows "dataset_slice d (int s) (int e) = Inr (slice_array d s e)"
  using assms by (simp add: dataset_slice_def slice_bounds_nat slice_array_def Let_def)

lemma chunk_columns_as_assign:
  assumes "\<forall>col\<in>set cols. \<exists>d n. map_of grp col = Some d
              \<and> (shape d = [n] \<or> (\<exists>w. shape d = [n, w])) \<and> e \<le> n"
    and "s \<le> e"
  shows "chunk_columns sys grp (int s) (int e) cols df
           = assign_all df (concat (map (\<lambda>col. column_assignments sys col
                 (to_native_byteorder sys (slice_array (the (map_of grp col)) s e))) cols))"
  using assms
proof (induction cols arbitrary: df)
  case Nil
  then show ?case by simp
next
  case (Cons col cols)
  then obtain d n where d: "map_of grp col = Some d"
      "shape d = [n] \<or> (\<exists>w. shape d = [n, w])" "e \<le> n" by auto
  then have sl: "dataset_slice d (int s) (int e) = Inr (slice_array d s e)"
    using Cons.prems(2) by (auto simp: dataset_slice_nat)
  have sh: "shape (to_native_byteorder sys (slice_array d s e)) = (e - s) # tl (shape d)"
    by (simp add: to_native_byteorder_shape slice_array_def)
  have IH: "chunk_columns sys grp (int s) (int e) cols df'
           = assign_all df' (concat (map (\<lambda>col. column_assignments sys col
                 (to_native_byteorder sys (slice_array (the (map_of grp col)) s e))) cols))" for df'
    using Cons by simp
  from d(2) show ?case
    by (auto simp: d(1) sl sh getitem_def assign_all_append column_assignments_def
          flatten_as_assign IH [abs_def] Let_def ndim_def)
qed

lemma cells_to_native [simp]: "cells sys (to_native_byteorder sys a) = cells sys a"
  by (simp add: cells_def to_native_byteorder_values)

lemma length_cells [simp]: "length (cells sys a) = length (items a)"
  by (simp add: cells_def array_values_def)

lemma row_major_bound:
  fixes r n w i :: nat
  assumes "r < n" and "i < w"
  shows "r * w + i < n * w"
proof -
  have "r * w + i < Suc r * w" using assms by simp
  also have "\<dots> \<le> n * w" using assms by (intro mult_le_mono1) simp
  finally show ?thesis .
qed

lemma cells_take_column:
  assumes "shape a = [n, w]" and "i < w" and "length (items a) = n * w"
  shows "cells sys (take_column (to_native_byteorder sys a) i)
           = map (\<lambda>r. Val (array_values sys a ! (r * w + i))) [0..<n]"
proof -
  let ?b = "to_native_byteorder sys a"
  have sh: "shape ?b = [n, w]" and len: "length (items ?b) = n * w"
    using assms by (simp_all add: to_native_byteorder_shape to_native_byteorder_length)
  have "cells sys (take_column ?b i)
          = map (\<lambda>r. Val (item_value sys (byteorder ?b) (items ?b ! (r * w + i)))) [0..<n]"
    by (simp add: cells_def array_values_def take_column_def sh Let_def comp_def)
  also have "\<dots> = map (\<lambda>r. Val (array_values sys ?b ! (r * w + i))) [0..<n]"
    using assms(2) by (intro map_cong refl) (simp add: array_values_def len row_major_bound)
  finally show ?thesis by (simp add: to_native_byteorder_values)
qed

lemma array_values_slice:
  "array_values sys (slice_array d s e)
     = take ((e - s) * prod_list (tl (shape d)))
         (drop (s * prod_list (tl (shape d))) (array_values sys d))"
  by (simp add: array_values_def slice_array_def take_map drop_map)

lemma cells_slice_rank1:
  assumes "shape d = [n]"
  shows "cells sys (to_native_byteorder sys (slice_array d s e))
           = take (e - s) (drop s (cells sys (to_native_byteorder sys d)))"
  using assms
  by (simp add: cells_def to_native_byteorder_values array_values_slice take_map drop_map)

lemma column_of_slice:
  assumes "shape d = [n, w]" and "i < w" and "length (items d) = n * w"
    and "s \<le> e" and "e \<le> n"
  shows "cells sys (take_column (to_native_byteorder sys (slice_array d s e)) i)
           = take (e - s) (drop s (cells sys (take_column (to_native_byteorder sys d) i)))"
proof -
  let ?V = "array_values sys d"
  have lenV: "length ?V = n * w" using assms by (simp add: array_values_def)
  have "(e - s) * w \<le> n * w - s * w"
    using assms by (simp add: diff_mult_distrib [symmetric])
  then have len: "length (items (slice_array d s e)) = (e - s) * w"
    using assms by (simp add: slice_array_def)
  have sh: "shape (slice_array d s e) = [e - s, w]"
    using assms by (simp add: slice_array_def)
  have vs: "array_values sys (slice_array d s e) = take ((e - s) * w) (drop (s * w) ?V)"
    using assms by (simp add: array_values_slice)
  have lhs: "cells sys (take_column (to_native_byteorder sys (slice_array d s e)) i)
          = map (\<lambda>r. Val (take ((e - s) * w) (drop (s * w) ?V) ! (r * w + i))) [0..<e - s]"
    using cells_take_column [OF sh assms(2) len] by (simp add: vs)
  have rhs: "take (e - s) (drop s (cells sys (take_column (to_native_byteorder sys d) i)))
          = map (\<lambda>r. Val (?V ! (r * w + i))) [s..<e]"
    using assms by (simp add: cells_take_column [OF assms(1,2,3)] take_map drop_map)
  have "map (\<lambda>r. Val (take ((e - s) * w) (drop (s * w) ?V) ! (r * w + i))) [0..<e - s]
          = map (\<lambda>r. Val (?V ! (r * w + i))) [s..<e]"
  proof (rule nth_equalityI)
    show "length (map (\<lambda>r. Val (take ((e - s) * w) (drop (s * w) ?V) ! (r * w + i))) [0..<e - s])
            = length (map (\<lambda>r. Val (?V ! (r * w + i))) [s..<e])"
      by simp
  next
    fix r
    assume "r < length (map (\<lambda>r. Val (take ((e - s) * w) (drop (s * w) ?V) ! (r * w + i))) [0..<e - s])"
    then have r: "r < e - s" by simp
    then have b: "r * w + i < (e - s) * w" using assms(2) by (rule row_major_bound)
    have eq: "s * w + (r * w + i) = (s + r) * w + i" by (simp add: add_mult_distrib)
    have "s * w \<le> length ?V" using assms by (simp add: lenV)
    then show "map (\<lambda>r. Val (take ((e - s) * w) (drop (s * w) ?V) ! (r * w + i))) [0..<e - s] ! r
            = map (\<lambda>r. Val (?V ! (r * w + i))) [s..<e] ! r"
      using r b by (simp add: eq)
  qed
  with lhs rhs show ?thesis by simp
qed

lemma column_assignments_slice:
  assumes "shape d = [n] \<or> (\<exists>w. shape d = [n, w])"
    and "length (items d) = prod_list (shape d)" and "s \<le> e" and "e \<le> n"
  shows "column_assignments sys col (to_native_byteorder sys (slice_array d s e))
           = map (\<lambda>a. (fst a, take (e - s) (drop s (snd a))))
               (column_assignments sys col (to_native_byteorder sys d))"
  using assms(1)
proof
  assume sh: "shape d = [n]"
  then show ?thesis
    using cells_slice_rank1 [OF sh, of sys s e]
    by (simp add: column_assignments_def ndim_def to_native_byteorder_shape slice_array_def)
next
  assume "\<exists>w. shape d = [n, w]"
  then obtain w where sh: "shape d = [n, w]" ..
  have len: "length (items d) = n * w" using assms(2) sh by simp
  show ?thesis
    using column_of_slice [OF sh _ len assms(3,4)]
    by (simp add: column_assignments_def ndim_def to_native_byteorder_shape slice_array_def sh)
qed

lemma update_map_snd:
  "AList.update k (f v) (map (\<lambda>a. (fst a, f (snd a))) cs)
     = map (\<lambda>a. (fst a, f (snd a))) (AList.update k v cs)"
  by (induction cs) auto

lemma foldl_put_map:
  "foldl put (map (\<lambda>a. (fst a, f (snd a))) cs) (map (\<lambda>a. (fst a, f (snd a))) as)
     = map (\<lambda>a. (fst a, f (snd a))) (foldl put cs as)"
  by (induction as arbitrary: cs) (simp_all add: put_def update_map_snd)

lemma remove_high_rank_filter:
  assumes "\<forall>col\<in>set todo. \<exists>d. map_of grp col = Some d"
    and "\<forall>col\<in>set pre. ndim (the (map_of grp col)) \<le> 2"
  shows "remove_high_rank grp todo (pre @ todo)
           = Inr (pre @ filter (\<lambda>col. ndim (the (map_of grp col)) \<le> 2) todo)"
  using assms
proof (induction todo arbitrary: pre)
  case Nil
  then show ?case by simp
next
  case (Cons col rest)
  then obtain d where d: "map_of grp col = Some d" by auto
  show ?case
  proof (cases "ndim d > 2")
    case True
    then have "col \<notin> set pre" using Cons.prems(2) d by auto
    then have "remove1 col (pre @ col # rest) = pre @ rest"
      by (simp add: remove1_append)
    then show ?thesis
      using Cons.IH [of pre] Cons.prems True d by (simp add: getitem_def)
  next
    case False
    then show ?thesis
      using Cons.IH [of "pre @ [col]"] Cons.prems d by (simp add: getitem_def)
  qed
qed

lemma n_events_ok:
  assumes "h5py_File fs file_path Mode_r_plus = Inr f" and "map_of f key = Some grp"
    and "grp \<noteq> []" and "\<forall>(name, d)\<in>set grp. has_rows N d"
  shows "h5py_get_n_events fs file_path key = Inr (int N)"
proof -
  obtain name d rest where grp: "grp = (name, d) # rest"
    using assms(3) by (cases grp) auto
  then have "has_rows N d" using assms(4) by simp
  then obtain inner where "shape d = N # inner"
    by (cases "shape d") (simp_all add: has_rows_def)
  then show ?thesis
    using assms(1,2) grp by (simp add: h5py_get_n_events_def getitem_def)
qed

lemma drain_suspended:
  assumes "\<forall>k. int k < l_n_chunks st \<longrightarrow> make_chunk sys st k = Inr (item k)"
  shows "drain sys fs (Suspended st k) = (map item [Suc k..<nat (l_n_chunks st)], None)"
proof (induction "nat (l_n_chunks st) - Suc k" arbitrary: k)
  case 0
  then have "\<not> int (Suc k) < l_n_chunks st" by linarith
  then have "gen_next sys fs (Suspended st k) = (Stop, Finished)"
    by (simp add: gen_next_def run_to_yield_def)
  then show ?case using 0 by (simp add: drain_Stop)
next
  case (Suc m)
  then have lt: "int (Suc k) < l_n_chunks st" by linarith
  then have "gen_next sys fs (Suspended st k) = (Yield (item (Suc k)), Suspended st (Suc k))"
    using assms by (simp add: gen_next_def run_to_yield_def)
  moreover have "drain sys fs (Suspended st (Suc k))
                   = (map item [Suc (Suc k)..<nat (l_n_chunks st)], None)"
    using Suc by (intro Suc.hyps(1)) simp
  moreover have "[Suc k..<nat (l_n_chunks st)] = Suc k # [Suc (Suc k)..<nat (l_n_chunks st)]"
    using lt by (intro upt_conv_Cons) linarith
  ultimately show ?case by (simp add: drain_Yield)
qed

lemma drain_created:
  assumes "chunked_setup fs file_path key columns chunksize = Inr st"
    and "\<forall>k. int k < l_n_chunks st \<longrightarrow> make_chunk sys st k = Inr (item k)"
  shows "drain sys fs (read_h5py_chunked file_path key columns chunksize)
           = (map item [0..<nat (l_n_chunks st)], None)"
proof (cases "0 < l_n_chunks st")
  case True
  then have "gen_next sys fs (read_h5py_chunked file_path key columns chunksize)
               = (Yield (item 0), Suspended st 0)"
    using assms by (simp add: gen_next_def run_to_yield_def read_h5py_chunked_def)
  moreover have "[0..<nat (l_n_chunks st)] = 0 # [Suc 0..<nat (l_n_chunks st)]"
    using True by (intro upt_conv_Cons) linarith
  ultimately show ?thesis
    using drain_suspended [OF assms(2), of fs 0] by (simp add: drain_Yield)
next
  case False
  then have "gen_next sys fs (read_h5py_chunked file_path key columns chunksize)
               = (Stop, Finished)"
    using assms by (simp add: gen_next_def run_to_yield_def read_h5py_chunked_def)
  then show ?thesis using False by (simp add: drain_Stop)
qed

lemma arange_append:
  assumes "a \<le> b" and "b \<le> c"
  shows "arange a b @ arange b c = arange a c"
proof (cases "a = b")
  case True
  then show ?thesis by simp
next
  case False
  then have "a \<le> b - 1" "b - 1 \<le> c - 1" using assms by simp_all
  from upto_split2 [OF this] show ?thesis by (simp add: arange_def)
qed

lemma map_of_rows:
  assumes "distinct (map fst C)" and "a \<in> set C"
  shows "map_of (map (rows s e) C) (fst a) = Some (take (e - s) (drop s (snd a)))"
proof -
  have "map_of C (fst a) = Some (snd a)" using assms by simp
  then have "map_of (map (\<lambda>(k, v). (k, take (e - s) (drop s v))) C) (fst a)
               = Some (take (e - s) (drop s (snd a)))"
    by (simp add: map_of_map)
  moreover have "rows s e = (\<lambda>(k, v). (k, take (e - s) (drop s v)))"
    by (rule ext) (simp add: rows_def case_prod_unfold)
  ultimately show ?thesis by simp
qed

lemma append_table_rows:
  assumes "distinct (map fst C)" and "a \<le> b"
  shows "append_table \<lparr>index = arange 0 (int a), table_columns = map (rows 0 a) C\<rparr>
                      \<lparr>index = arange (int a) (int b), table_columns = map (rows a b) C\<rparr>
           = \<lparr>index = arange 0 (int b), table_columns = map (rows 0 b) C\<rparr>"
proof -
  have "take a v @ take (b - a) (drop a v) = take b v" for v :: "cell list"
    using take_add [of a "b - a" v] assms(2) by simp
  then have "(case rows 0 a x of (name, vals) \<Rightarrow>
               (name, vals @ (case map_of (map (rows a b) C) name of
                                Some vals' \<Rightarrow> vals'
                              | None \<Rightarrow> replicate n NaN)))
             = rows 0 b x" if "x \<in> set C" for x n
    using map_of_rows [OF assms(1) that, of a b] by (simp add: rows_def)
  then show ?thesis
    using assms(2) by (simp add: append_table_def arange_append)
qed

lemma chunk_count_iff:
  assumes "0 < c"
  shows "int k < - ((- int N) div c) \<longleftrightarrow> k * nat c < N"
proof -
  have ceil: "- ((- int N) div c) = \<lceil>real_of_int (int N) / real_of_int c\<rceil>"
    by (rule ceiling_divide_eq_div [symmetric])
  have pos: "0 < real_of_int c" using assms by simp
  have "int k < - ((- int N) div c)
          \<longleftrightarrow> real_of_int (int k) < real_of_int (int N) / real_of_int c"
    by (simp only: ceil less_ceiling_iff)
  also have "\<dots> \<longleftrightarrow> real_of_int (int k) * real_of_int c < real_of_int (int N)"
    by (rule pos_less_divide_eq [OF pos])
  also have "\<dots> \<longleftrightarrow> int k * c < int N"
    by (simp only: of_int_mult [symmetric] of_int_less_iff)
  finally have "int k < - ((- int N) div c) \<longleftrightarrow> int k * c < int N" .
  moreover have "int (k * nat c) = int k * c" using assms by simp
  ultimately show ?thesis by (metis of_nat_less_iff)
qed

lemma column_assignments_length:
  assumes "has_rows N d"
  shows "\<forall>a\<in>set (column_assignments sys col (to_native_byteorder sys d)). length (snd a) = N"
proof -
  obtain inner where sh: "shape d = N # inner" and len: "length (items d) = prod_list (shape d)"
    using assms by (cases "shape d") (simp_all add: has_rows_def)
  show ?thesis
    using sh len
    by (auto simp: column_assignments_def ndim_def to_native_byteorder_shape
          to_native_byteorder_length take_column_def Let_def)
qed

lemma foldl_put_distinct: "distinct (map fst cs) \<Longrightarrow> distinct (map fst (foldl put cs as))"
  by (induction as arbitrary: cs) (simp_all add: put_def distinct_update)

lemma set_update_subset: "set (AList.update k v cs) \<subseteq> insert (k, v) (set cs)"
  by (induction cs) auto

lemma foldl_put_length:
  assumes "\<forall>a\<in>set cs. length (snd a) = N" and "\<forall>a\<in>set as. length (snd a) = N"
  shows "\<forall>a\<in>set (foldl put cs as). length (snd a) = N"
  using assms
proof (induction as arbitrary: cs)
  case Nil
  then show ?case by simp
next
  case (Cons a as)
  have "\<forall>b\<in>set (put cs a). length (snd b) = N"
  proof
    fix b
    assume "b \<in> set (put cs a)"
    then have "b = (fst a, snd a) \<or> b \<in> set cs"
      using set_update_subset [of "fst a" "snd a" cs] unfolding put_def by blast
    then show "length (snd b) = N"
      using Cons.prems by auto
  qed
  moreover have "\<forall>b\<in>set as. length (snd b) = N"
    using Cons.prems(2) by simp
  ultimately have "\<forall>b\<in>set (foldl put (put cs a) as). length (snd b) = N"
    by (rule Cons.IH)
  then show ?case by simp
qed

lemma resolve_columns_present:
  assumes "case columns of None \<Rightarrow> True | Some cols \<Rightarrow> set cols \<subseteq> fst ` set grp"
    and "col \<in> set (resolve_columns grp columns)"
  shows "\<exists>d. map_of grp col = Some d \<and> (col, d) \<in> set grp"
proof (cases columns)
  case None
  then show ?thesis
    using assms(2) by (auto simp: resolve_columns_def split: option.splits dest: map_of_SomeD)
next
  case (Some cols)
  then have "col \<in> fst ` set grp" using assms by (auto simp: resolve_columns_def)
  then obtain d where "map_of grp col = Some d"
    by (cases "map_of grp col") (auto simp: map_of_eq_None_iff)
  then show ?thesis by (auto dest: map_of_SomeD)
qed

lemma nat_int_diff [simp]: "nat (int e - int s) = e - s"
  by arith

lemma group_assignments_length:
  assumes "\<forall>col\<in>set cols. \<exists>d. map_of grp col = Some d \<and> has_rows N d"
  shows "\<forall>a\<in>set (group_assignments sys grp cols). length (snd a) = N"
proof
  fix a
  assume "a \<in> set (group_assignments sys grp cols)"
  then obtain col where col: "col \<in> set cols"
    and a: "a \<in> set (case map_of grp col of None \<Rightarrow> []
               | Some d \<Rightarrow> column_assignments sys col (to_native_byteorder sys d))"
    by (auto simp: group_assignments_def)
  from assms col obtain d where d: "map_of grp col = Some d" "has_rows N d" by blast
  from a d(1) have "a \<in> set (column_assignments sys col (to_native_byteorder sys d))" by simp
  with column_assignments_length [OF d(2)] show "length (snd a) = N" by blast
qed

lemma has_rows_shape: "has_rows N d \<Longrightarrow> \<exists>inner. shape d = N # inner"
  by (cases "shape d") (simp_all add: has_rows_def)

lemma has_rows_length: "has_rows N d \<Longrightarrow> length (items d) = prod_list (shape d)"
  by (cases "shape d") (simp_all add: has_rows_def)

lemma group_assignments_the:
  assumes "\<forall>col\<in>set cols. \<exists>d. map_of grp col = Some d"
  shows "concat (map (\<lambda>col. column_assignments sys col
            (to_native_byteorder sys (the (map_of grp col)))) cols)
           = group_assignments sys grp cols"
  unfolding group_assignments_def
  using assms by (intro arg_cong [where f = concat] map_cong refl) auto

lemma read_h5py_columns_closed:
  assumes "\<forall>col\<in>set cols. \<exists>d. map_of grp col = Some d \<and> has_rows N d"
  shows "read_h5py_columns sys grp cols DataFrame
           = Inr \<lparr>index = (if group_assignments sys grp cols = [] then [] else arange 0 (int N)),
                  table_columns = foldl put [] (group_assignments sys grp cols)\<rparr>"
proof -
  have ne: "\<forall>col\<in>set cols. \<exists>d. map_of grp col = Some d \<and> shape d \<noteq> []"
    using assms has_rows_shape by fastforce
  have some: "\<forall>col\<in>set cols. \<exists>d. map_of grp col = Some d"
    using assms by blast
  have "fits N DataFrame" by (simp add: fits_def DataFrame_def)
  from assign_all_closed [OF group_assignments_length [OF assms] this, of sys]
  show ?thesis
    by (simp add: read_h5py_columns_as_assign [OF ne] group_assignments_the [OF some]
          settled_index_def DataFrame_def)
qed

lemma group_assignments_filter:
  assumes "\<forall>col\<in>set cols. \<exists>d. map_of grp col = Some d"
  shows "group_assignments sys grp (filter (\<lambda>col. ndim (the (map_of grp col)) \<le> 2) cols)
           = group_assignments sys grp cols"
  using assms
  by (induction cols)
     (auto simp: group_assignments_def column_assignments_def to_native_byteorder_ndim)

lemma rows_unfold: "rows s e = (\<lambda>a. (fst a, take (e - s) (drop s (snd a))))"
  by (rule ext) (simp add: rows_def)

lemma foldl_put_rows:
  "foldl put [] (map (rows s e) as) = map (rows s e) (foldl put [] as)"
  using foldl_put_map [of "\<lambda>v. take (e - s) (drop s v)" "[]" as]
  by (simp add: rows_unfold)

lemma chunk_columns_closed:
  assumes present: "\<forall>col\<in>set cols. \<exists>d. map_of grp col = Some d \<and> has_rows N d"
    and "s \<le> e" and "e \<le> N"
  shows "chunk_columns sys grp (int s) (int e)
           (filter (\<lambda>col. ndim (the (map_of grp col)) \<le> 2) cols)
           (DataFrame_index (arange (int s) (int e)))
         = Inr \<lparr>index = arange (int s) (int e),
                table_columns = map (rows s e) (foldl put [] (group_assignments sys grp cols))\<rparr>"
proof -
  let ?cols = "filter (\<lambda>col. ndim (the (map_of grp col)) \<le> 2) cols"
  let ?A = "group_assignments sys grp cols"
  let ?df = "DataFrame_index (arange (int s) (int e))"
  have some: "\<forall>col\<in>set cols. \<exists>d. map_of grp col = Some d"
    using present by blast
  have shapes: "\<exists>d. map_of grp col = Some d \<and> (shape d = [N] \<or> (\<exists>w. shape d = [N, w]))
                  \<and> length (items d) = prod_list (shape d)"
    if "col \<in> set ?cols" for col
  proof -
    from that present obtain d where d: "map_of grp col = Some d" "has_rows N d" "ndim d \<le> 2"
      by auto
    from has_rows_shape [OF d(2)] obtain inner where sh: "shape d = N # inner" ..
    with d(3) have "length inner \<le> 1" by (simp add: ndim_def)
    then have "inner = [] \<or> (\<exists>w. inner = [w])"
      by (cases inner) auto
    with sh d(1) has_rows_length [OF d(2)] show ?thesis by auto
  qed
  have pre: "\<forall>col\<in>set ?cols. \<exists>d n. map_of grp col = Some d
              \<and> (shape d = [n] \<or> (\<exists>w. shape d = [n, w])) \<and> e \<le> n"
    using shapes assms(3) by blast
  have sliced: "column_assignments sys col
                  (to_native_byteorder sys (slice_array (the (map_of grp col)) s e))
                = map (rows s e) (case map_of grp col of None \<Rightarrow> []
                    | Some d \<Rightarrow> column_assignments sys col (to_native_byteorder sys d))"
    if "col \<in> set ?cols" for col
  proof -
    from shapes [OF that] obtain d where d: "map_of grp col = Some d"
      "shape d = [N] \<or> (\<exists>w. shape d = [N, w])" "length (items d) = prod_list (shape d)"
      by blast
    from column_assignments_slice [OF d(2,3) assms(2,3), of sys col] d(1)
    show ?thesis by (simp add: rows_unfold)
  qed
  have "concat (map (\<lambda>col. column_assignments sys col
            (to_native_byteorder sys (slice_array (the (map_of grp col)) s e))) ?cols)
        = concat (map (\<lambda>col. map (rows s e) (case map_of grp col of None \<Rightarrow> []
                    | Some d \<Rightarrow> column_assignments sys col (to_native_byteorder sys d))) ?cols)"
    using sliced by (intro arg_cong [where f = concat] map_cong refl)
  also have "\<dots> = map (rows s e) (group_assignments sys grp ?cols)"
    by (simp add: group_assignments_def map_concat comp_def)
  also have "\<dots> = map (rows s e) ?A"
    by (simp add: group_assignments_filter [OF some])
  finally have as: "chunk_columns sys grp (int s) (int e) ?cols ?df
                      = assign_all ?df (map (rows s e) ?A)"
    by (simp add: chunk_columns_as_assign [OF pre assms(2)])
  have lens: "\<forall>a\<in>set (map (rows s e) ?A). length (snd a) = e - s"
    using group_assignments_length [OF present, of sys] assms(2,3)
    by (auto simp: rows_def)
  have fit: "fits (e - s) ?df"
    using assms(2) by (simp add: fits_def DataFrame_index_def)
  have idx: "settled_index (e - s) ?df = arange (int s) (int e)"
    using assms(2) by (auto simp: settled_index_def DataFrame_index_def)
  have df: "index ?df = arange (int s) (int e)" "table_columns ?df = []"
    by (simp_all add: DataFrame_index_def)
  from assign_all_closed [OF lens fit] show ?thesis
    by (simp add: as idx df foldl_put_rows)
qed


lemma present_in_group:
  assumes "\<forall>(name, d)\<in>set grp. has_rows N d"
    and "case columns of None \<Rightarrow> True | Some cols \<Rightarrow> set cols \<subseteq> fst ` set grp"
  shows "\<forall>col\<in>set (resolve_columns grp columns). \<exists>d. map_of grp col = Some d \<and> has_rows N d"
proof
  fix col
  assume "col \<in> set (resolve_columns grp columns)"
  from resolve_columns_present [OF assms(2) this]
  obtain d where "map_of grp col = Some d" "(col, d) \<in> set grp" by blast
  with assms(1) show "\<exists>d. map_of grp col = Some d \<and> has_rows N d" by blast
qed

section \<open>The number of chunks\<close>

lemma bit_length_pos: "0 < n \<Longrightarrow> bit_length n = Suc (bit_length (n div 2))"
  by (subst bit_length.simps) simp

lemma bit_length_bounds:
  "0 < n \<Longrightarrow> 2 ^ (bit_length n - 1) \<le> n \<and> n < 2 ^ bit_length n"
proof (induction n rule: bit_length.induct)
  case (1 n)
  note pos_n = \<open>0 < n\<close>
  show ?case
  proof (cases "n div 2 = 0")
    case True
    with pos_n have n1: "n = 1" by linarith
    have "bit_length (Suc 0) = Suc 0"
      by (subst bit_length.simps, subst bit_length.simps) simp
    then show ?thesis by (simp add: n1)
  next
    case False
    then have pos: "0 < n div 2" by simp
    from 1(1) pos_n pos have IH: "2 ^ (bit_length (n div 2) - 1) \<le> n div 2"
        "n div 2 < 2 ^ bit_length (n div 2)" by simp_all
    have bl: "bit_length n = Suc (bit_length (n div 2))"
      using pos_n by (rule bit_length_pos)
    obtain k where k: "bit_length (n div 2) = Suc k"
      using bit_length_pos [OF pos] by simp
    from IH have "2 * 2 ^ k \<le> 2 * (n div 2)" "2 * (n div 2) + 1 < 2 * 2 ^ Suc k"
      by (simp_all add: k)
    then have "(2::nat) * 2 ^ k \<le> n" "n < 2 * 2 ^ Suc k" by linarith+
    then show ?thesis by (simp add: bl k)
  qed
qed


lemma bit_length_mono:
  assumes "a \<le> b"
  shows "bit_length a \<le> bit_length b"
proof (cases "a = 0")
  case True
  then show ?thesis by (simp add: bit_length.simps)
next
  case False
  then have a: "0 < a" and b: "0 < b" using assms by simp_all
  show ?thesis
  proof (rule ccontr)
    assume "\<not> bit_length a \<le> bit_length b"
    then have "bit_length b \<le> bit_length a - 1" by simp
    then have "(2::nat) ^ bit_length b \<le> 2 ^ (bit_length a - 1)"
      by (rule power_increasing) simp
    also have "\<dots> \<le> a" using bit_length_bounds [OF a] by simp
    also have "\<dots> \<le> b" by (rule assms)
    finally show False using bit_length_bounds [OF b] by simp
  qed
qed

lemma binary_exponent_quotient:
  assumes "0 < b" and "b \<le> a"
  shows "0 \<le> binary_exponent a b \<and> b * 2 ^ nat (binary_exponent a b) \<le> a"
proof -
  have a: "0 < a" using assms by simp
  define d where "d = bit_length a - bit_length b"
  have le: "bit_length b \<le> bit_length a" using assms(2) by (rule bit_length_mono)
  then have d: "int (bit_length a) - int (bit_length b) = int d"
    by (simp add: d_def)
  show ?thesis
  proof (cases "b * 2 ^ d \<le> a")
    case True
    then have "binary_exponent a b = int d"
      by (simp add: binary_exponent_def d)
    with True show ?thesis by simp
  next
    case False
    then have "d \<noteq> 0" using assms(2) by (cases d) auto
    then obtain d' where d': "d = Suc d'" by (cases d) auto
    have k: "binary_exponent a b = int d'"
      using False by (simp add: binary_exponent_def d) (simp add: d')
    have bl: "bit_length a - 1 = bit_length b + d'"
      using le d' by (simp add: d_def)
    have "b * 2 ^ d' \<le> 2 ^ bit_length b * 2 ^ d'"
      using bit_length_bounds [OF assms(1)] by simp
    also have "\<dots> = 2 ^ (bit_length a - 1)"
      by (simp only: bl power_add)
    also have "\<dots> \<le> a" using bit_length_bounds [OF a] by simp
    finally show ?thesis by (simp add: k)
  qed
qed

lemma round_half_even_le:
  assumes "0 < b" and "A \<le> M * b"
  shows "round_half_even A b \<le> M"
proof -
  define f where "f = A div b"
  define r where "r = A mod b"
  have A: "A = f * b + r" by (simp add: f_def r_def)
  have r: "0 \<le> r" "r < b" using assms(1) by (simp_all add: r_def)
  have "f * b \<le> M * b" using A r assms(2) by linarith
  then have fM: "f \<le> M" using assms(1) by simp
  show ?thesis
  proof (cases "round_half_even A b = f")
    case True
    then show ?thesis using fM by simp
  next
    case False
    then have up: "round_half_even A b = f + 1" and "b \<le> 2 * r"
      by (auto simp: round_half_even_def Let_def f_def [symmetric] r_def [symmetric]
            split: if_splits)
    then have "0 < r" using assms(1) by linarith
    then have "f * b < M * b" using A assms(2) by linarith
    then have "f < M" using assms(1) by simp
    then show ?thesis by (simp add: up)
  qed
qed

lemma round_half_even_ge:
  assumes "0 < b" and "2 * (M * b) - b < 2 * A"
  shows "M \<le> round_half_even A b"
proof -
  define f where "f = A div b"
  define r where "r = A mod b"
  have A: "A = f * b + r" by (simp add: f_def r_def)
  have r: "0 \<le> r" "r < b" using assms(1) by (simp_all add: r_def)
  show ?thesis
  proof (cases "round_half_even A b = f")
    case True
    then have "2 * r \<le> b"
      by (auto simp: round_half_even_def Let_def f_def [symmetric] r_def [symmetric]
            split: if_splits)
    then have "2 * (M * b) < 2 * (f * b) + 2 * b" using A assms(2) by linarith
    then have "M * b < (f + 1) * b" by (simp add: algebra_simps)
    then have "M < f + 1" using assms(1) by (simp only: mult_less_cancel_right_pos)
    then show ?thesis using True by simp
  next
    case False
    then have up: "round_half_even A b = f + 1"
      by (auto simp: round_half_even_def Let_def f_def [symmetric] r_def [symmetric]
            split: if_splits)
    have "2 * (M * b) < 2 * (f * b) + 3 * b" using A r assms(2) by linarith
    then have "(2 * M) * b < (2 * f + 3) * b" by (simp add: algebra_simps)
    then have "2 * M < 2 * f + 3" using assms(1) by (simp only: mult_less_cancel_right_pos)
    then show ?thesis by (simp add: up)
  qed
qed

lemma round_half_even_nonneg: "0 < b \<Longrightarrow> 0 \<le> A \<Longrightarrow> 0 \<le> round_half_even A b"
  using round_half_even_ge [of b 0 A] by simp

text \<open>Below \<open>2^53\<close> the float quotient rounds up to the exact ceiling.\<close>

lemma ceil_true_divide_exact:
  assumes "0 < c" and "c \<le> n" and "n < 2 ^ 53"
  shows "\<exists>x. true_divide n c = Inr x \<and> ceil_double x = - ((- n) div c)"
proof -
  define a where "a = nat n"
  define b where "b = nat c"
  have ab: "0 < b" "b \<le> a" "int a = n" "int b = c"
    using assms by (simp_all add: a_def b_def)
  define k where "k = nat (binary_exponent a b)"
  have k: "binary_exponent a b = int k" and lower: "b * 2 ^ k \<le> a"
    using binary_exponent_quotient [OF ab(1,2)] by (simp_all add: k_def)
  have "int (b * 2 ^ k) \<le> int a" using lower by (simp only: of_nat_le_iff)
  then have lowc: "c * 2 ^ k \<le> n" by (simp add: ab)
  have "(1::int) * 2 ^ k \<le> c * 2 ^ k" using assms(1) by (intro mult_right_mono) simp_all
  with lowc assms(3) have "(2::int) ^ k < 2 ^ 53" by linarith
  then have k53: "k < 53" by (simp only: power_strict_increasing_iff [of "2::int"]) 
  define S :: int where "S = 2 ^ (52 - k)"
  have S: "0 < S" by (simp add: S_def)
  have "2 * S * 2 ^ k = (2::int) ^ (Suc (52 - k) + k)"
    by (simp only: S_def power_add power_Suc)
  also have "\<dots> = 2 ^ 53" using k53 by simp
  finally have SS: "2 * S * 2 ^ k = 2 ^ 53" .
  have "c * 2 ^ k < 2 * S * 2 ^ k" using lowc assms(3) SS by linarith
  then have c2S: "c < 2 * S" by simp
  define K where "K = - ((- n) div c)"
  have up: "n \<le> K * c"
  proof -
    have "- n = (- n) div c * c + (- n) mod c" by simp
    moreover have "0 \<le> (- n) mod c" using assms(1) by simp
    ultimately have "(- n) div c * c \<le> - n" by linarith
    then show ?thesis by (simp add: K_def)
  qed
  have low: "(K - 1) * c < n"
  proof -
    have "- n = (- n) div c * c + (- n) mod c" by simp
    moreover have "(- n) mod c < c" using assms(1) by simp
    ultimately have "- n < (- n) div c * c + c" by linarith
    then show ?thesis by (simp add: K_def algebra_simps)
  qed
  define m where "m = round_half_even (n * S) c"
  have mle: "m \<le> K * S"
    unfolding m_def
  proof (rule round_half_even_le [OF assms(1)])
    have "n * S \<le> (K * c) * S" using up S by (intro mult_right_mono) simp_all
    then show "n * S \<le> K * S * c" by (simp add: mult_ac)
  qed
  have mge: "(K - 1) * S + 1 \<le> m"
    unfolding m_def
  proof (rule round_half_even_ge [OF assms(1)])
    from low have "(K - 1) * c + 1 \<le> n" by simp
    then have "((K - 1) * c + 1) * S \<le> n * S" using S by (intro mult_right_mono) simp_all
    then have "(K - 1) * S * c + S \<le> n * S" by (simp add: algebra_simps)
    then show "2 * (((K - 1) * S + 1) * c) - c < 2 * (n * S)"
      using c2S by (simp add: algebra_simps)
  qed
  have e: "max (- 1074) (binary_exponent a b - 52) = - int (52 - k)"
    using k53 by (simp add: k)
  have n0: "n \<noteq> 0" "c \<noteq> 0" "\<bar>n\<bar> = n" "\<bar>c\<bar> = c" "sgn n = 1" "sgn c = 1"
    using assms by simp_all
  have td: "true_divide n c = Inr (Double m (- int (52 - k)))"
    by (simp add: true_divide_def n0 Let_def a_def [symmetric] b_def [symmetric] e ab
          m_def S_def)
  have "ceil_double (Double m (- int (52 - k))) = - ((- m) div S)"
    by (simp add: ceil_double_def S_def)
  also have "\<dots> = K"
  proof -
    have "(- m) div S = - K"
    proof (rule int_div_pos_eq [where r = "K * S - m"])
      show "- m = S * - K + (K * S - m)" by simp
      show "0 \<le> K * S - m" using mle by simp
      show "K * S - m < S" using mge by (simp add: algebra_simps)
    qed
    then show ?thesis by simp
  qed
  finally show ?thesis using td by (simp add: K_def)
qed

lemma plan_chunks_exact:
  assumes "0 < c" and "c \<le> n" and "n < 2 ^ 53"
  shows "plan_chunks n (Some c) = Inr (- ((- n) div c), c)"
  using ceil_true_divide_exact [OF assms] by (auto simp: plan_chunks_def bind_exn_def)

lemma chunked_setup_ok:
  assumes "fs file_path = Some hfile" and "may_read hfile" and "may_write hfile"
    and "map_of (groups hfile) key = Some grp" and "grp \<noteq> []"
    and "\<forall>(name, d)\<in>set grp. has_rows N d"
    and "case columns of None \<Rightarrow> True | Some cols \<Rightarrow> set cols \<subseteq> fst ` set grp"
    and "0 < c" and "c \<le> int N" and "N < 2 ^ 53"
  shows "chunked_setup fs file_path key columns (Some c)
           = Inr \<lparr>l_group = grp,
                  l_columns = filter (\<lambda>col. ndim (the (map_of grp col)) \<le> 2)
                                (resolve_columns grp columns),
                  l_n_events = int N, l_chunksize = c,
                  l_n_chunks = - ((- int N) div c)\<rparr>"
proof -
  have op: "h5py_File fs file_path Mode_r_plus = Inr (groups hfile)"
    using assms(1,2,3) by (rule open_ok)
  have n: "h5py_get_n_events fs file_path key = Inr (int N)"
    using op assms(4,5,6) by (rule n_events_ok)
  have "\<forall>col\<in>set (resolve_columns grp columns). \<exists>d. map_of grp col = Some d"
    using present_in_group [OF assms(6,7)] by blast
  from remove_high_rank_filter [OF this, of "[]"]
  have rm: "remove_high_rank grp (resolve_columns grp columns) (resolve_columns grp columns)
              = Inr (filter (\<lambda>col. ndim (the (map_of grp col)) \<le> 2)
                       (resolve_columns grp columns))"
    by simp
  have "int N < 2 ^ 53"
    using assms(10) by (simp only: of_nat_less_numeral_power_cancel_iff)
  with assms(8,9) have "plan_chunks (int N) (Some c) = Inr (- ((- int N) div c), c)"
    by (rule plan_chunks_exact)
  then show ?thesis
    by (simp add: chunked_setup_def op assms(4) n rm Let_def)
qed

lemma make_chunk_closed:
  assumes "\<forall>col\<in>set cols. \<exists>d. map_of grp col = Some d \<and> has_rows N d"
    and "0 < c" and "k * nat c < N"
  shows "make_chunk sys \<lparr>l_group = grp,
            l_columns = filter (\<lambda>col. ndim (the (map_of grp col)) \<le> 2) cols,
            l_n_events = int N, l_chunksize = c, l_n_chunks = n\<rparr> k
         = Inr (chunk_table (foldl put [] (group_assignments sys grp cols))
                  (k * nat c) (min N (Suc k * nat c)))"
proof -
  obtain cn where cn: "c = int cn"
    using assms(2) by (cases c) auto
  have start: "int k * c = int (k * nat c)"
    by (simp add: cn)
  have stop: "min (int N) ((int k + 1) * c) = int (min N (Suc k * nat c))"
    by (simp add: cn of_nat_min algebra_simps)
  have le: "k * nat c \<le> min N (Suc k * nat c)" "min N (Suc k * nat c) \<le> N"
    using assms(3) by simp_all
  show ?thesis
    by (simp add: make_chunk_def Let_def start stop chunk_table_def
          chunk_columns_closed [OF assms(1) le] del: of_nat_mult of_nat_min mult_Suc)
qed

lemma chunked_read_closed:
  assumes "fs file_path = Some hfile" and "may_read hfile" and "may_write hfile"
    and "map_of (groups hfile) key = Some grp" and "grp \<noteq> []"
    and "\<forall>(name, d)\<in>set grp. has_rows N d"
    and "case columns of None \<Rightarrow> True | Some cols \<Rightarrow> set cols \<subseteq> fst ` set grp"
    and "0 < c" and "c \<le> int N" and "N < 2 ^ 53"
  shows "drain sys fs (read_h5py_chunked file_path key columns (Some c))
           = (map (\<lambda>k. chunk_table
                          (foldl put [] (group_assignments sys grp (resolve_columns grp columns)))
                          (k * nat c) (min N (Suc k * nat c)))
                [0..<nat (- ((- int N) div c))], None)"
    and "read_h5py sys fs file_path key columns
           = Inr \<lparr>index = (if group_assignments sys grp (resolve_columns grp columns) = []
                           then [] else arange 0 (int N)),
                  table_columns
                    = foldl put [] (group_assignments sys grp (resolve_columns grp columns))\<rparr>"
proof -
  let ?cols = "resolve_columns grp columns"
  have present: "\<forall>col\<in>set ?cols. \<exists>d. map_of grp col = Some d \<and> has_rows N d"
    using assms(6,7) by (rule present_in_group)
  note st_ok = chunked_setup_ok [of fs file_path hfile "key" grp N "columns" c, OF assms(1-10)]
  have "make_chunk sys \<lparr>l_group = grp,
            l_columns = filter (\<lambda>col. ndim (the (map_of grp col)) \<le> 2) ?cols,
            l_n_events = int N, l_chunksize = c, l_n_chunks = - ((- int N) div c)\<rparr> k
         = Inr (chunk_table (foldl put [] (group_assignments sys grp ?cols))
                  (k * nat c) (min N (Suc k * nat c)))"
    if "int k < - ((- int N) div c)" for k
    using that make_chunk_closed [OF present assms(8)] chunk_count_iff [OF assms(8)] by blast
  then have "\<forall>k. int k < l_n_chunks \<lparr>l_group = grp,
            l_columns = filter (\<lambda>col. ndim (the (map_of grp col)) \<le> 2) ?cols,
            l_n_events = int N, l_chunksize = c, l_n_chunks = - ((- int N) div c)\<rparr> \<longrightarrow>
          make_chunk sys \<lparr>l_group = grp,
            l_columns = filter (\<lambda>col. ndim (the (map_of grp col)) \<le> 2) ?cols,
            l_n_events = int N, l_chunksize = c, l_n_chunks = - ((- int N) div c)\<rparr> k
         = Inr (chunk_table (foldl put [] (group_assignments sys grp ?cols))
                  (k * nat c) (min N (Suc k * nat c)))"
    by simp
  from drain_created [OF st_ok this]
  show "drain sys fs (read_h5py_chunked file_path key columns (Some c))
           = (map (\<lambda>k. chunk_table (foldl put [] (group_assignments sys grp ?cols))
                          (k * nat c) (min N (Suc k * nat c)))
                [0..<nat (- ((- int N) div c))], None)"
    by simp
  have op: "h5py_File fs file_path Mode_r_plus = Inr (groups hfile)"
    using assms(1,2,3) by (rule open_ok)
  show "read_h5py sys fs file_path key columns
           = Inr \<lparr>index = (if group_assignments sys grp ?cols = [] then [] else arange 0 (int N)),
                  table_columns = foldl put [] (group_assignments sys grp ?cols)\<rparr>"
    by (simp add: read_h5py_def op assms(4) read_h5py_columns_closed [OF present])
qed

section \<open>Chunks and their concatenation\<close>

text \<open>
  Appending the chunk that starts where a table of the first rows ends gives the table of
  the first rows up to the end of that chunk; so the chunks, concatenated in order, give
  all rows.
\<close>

lemma concat_prefix:
  assumes "distinct (map fst C)" and "m * cn < N"
  shows "foldl append_table (fst (chunk_table C 0 (min N cn)))
           (map (\<lambda>k. fst (chunk_table C (k * cn) (min N (Suc k * cn)))) [1..<Suc m])
         = \<lparr>index = arange 0 (int (min N (Suc m * cn))),
            table_columns = map (rows 0 (min N (Suc m * cn))) C\<rparr>"
  using assms(2)
proof (induction m)
  case 0
  then show ?case by (simp add: chunk_table_def)
next
  case (Suc m)
  then have lt: "m * cn < N" and eq: "min N (Suc m * cn) = Suc m * cn"
    by simp_all
  have le: "Suc m * cn \<le> min N (Suc (Suc m) * cn)"
    using Suc.prems by simp
  have "foldl append_table (fst (chunk_table C 0 (min N cn)))
           (map (\<lambda>k. fst (chunk_table C (k * cn) (min N (Suc k * cn)))) [1..<Suc (Suc m)])
        = append_table
            \<lparr>index = arange 0 (int (Suc m * cn)), table_columns = map (rows 0 (Suc m * cn)) C\<rparr>
            (fst (chunk_table C (Suc m * cn) (min N (Suc (Suc m) * cn))))"
    using Suc.IH [OF lt] by (simp add: eq del: mult_Suc)
  also have "\<dots> = \<lparr>index = arange 0 (int (min N (Suc (Suc m) * cn))),
            table_columns = map (rows 0 (min N (Suc (Suc m) * cn))) C\<rparr>"
    using append_table_rows [OF assms(1) le] by (simp add: chunk_table_def del: mult_Suc)
  finally show ?case .
qed

lemma concat_chunks:
  assumes "distinct (map fst C)" and "\<forall>a\<in>set C. length (snd a) = N"
    and "0 < n" and "(n - 1) * cn < N" and "N \<le> n * cn"
  shows "concat_tables (map (\<lambda>k. fst (chunk_table C (k * cn) (min N (Suc k * cn)))) [0..<n])
           = Inr \<lparr>index = arange 0 (int N), table_columns = C\<rparr>"
proof -
  obtain m where n: "n = Suc m" using assms(3) by (cases n) auto
  have upt: "[0..<Suc m] = 0 # [Suc 0..<Suc m]"
    by (rule upt_conv_Cons) simp
  have full: "min N (Suc m * cn) = N"
    using assms(5) n by simp
  have "map (rows 0 N) C = C"
    using assms(2) by (intro map_idI) (simp add: rows_def)
  moreover have one: "Suc 0 * cn = cn" by simp
  ultimately show ?thesis
    using concat_prefix [OF assms(1), of m cn N] assms(4)
    by (simp add: concat_tables_def upt n full one del: upt_Suc mult_Suc)
qed

lemma chunk_count:
  assumes "0 < c" and "c \<le> int N"
  shows "0 < nat (- ((- int N) div c))"
    and "(nat (- ((- int N) div c)) - 1) * nat c < N"
    and "N \<le> nat (- ((- int N) div c)) * nat c"
    and "int (nat (- ((- int N) div c))) = \<lceil>real N / real_of_int c\<rceil>"
    and "k < nat (- ((- int N) div c)) \<longleftrightarrow> k * nat c < N"
proof -
  let ?n = "nat (- ((- int N) div c))"
  show iff: "k < ?n \<longleftrightarrow> k * nat c < N" for k
    using chunk_count_iff [OF assms(1), of k N] by (simp add: zless_nat_eq_int_zless)
  have "0 < N" using assms by linarith
  then show pos: "0 < ?n" using iff [of 0] by simp
  then have "?n - 1 < ?n" by simp
  then show "(?n - 1) * nat c < N" using iff [of "?n - 1"] by blast
  have "\<not> ?n * nat c < N" using iff [of ?n] by simp
  then show "N \<le> ?n * nat c" by simp
  have "0 \<le> - ((- int N) div c)" using pos by linarith
  then have "int ?n = - ((- int N) div c)" by simp
  also have "\<dots> = \<lceil>real_of_int (int N) / real_of_int c\<rceil>"
    by (rule ceiling_divide_eq_div [symmetric])
  finally show "int ?n = \<lceil>real N / real_of_int c\<rceil>" by simp
qed



lemma example_events_read:
  "read_h5py little example_events ''events.h5'' ''events'' None
     = Inr \<lparr>index = [0, 1, 2, 3, 4, 5, 6, 7, 8, 9],
            table_columns = [(''energy'', [Val [10, 0], Val [11, 0], Val [12, 0], Val [13, 0],
               Val [14, 0], Val [15, 0], Val [16, 0], Val [17, 0], Val [18, 0], Val [19, 0]])]\<rparr>"
  by code_simp



section \<open>The worked example\<close>

lemma str_nat_0: "str_nat 0 = ''0''"
  by code_simp

lemma str_nat_1: "str_nat (Suc 0) = ''1''"
  by code_simp

lemma upt_2: "[0..<2] = [0, Suc 0]"
  by (simp add: numeral_2_eq_2)

lemma upt_3: "[0..<3] = [0, Suc 0, Suc (Suc 0)]"
  by (simp add: numeral_3_eq_3)

text \<open>
  C4, as the claim states it, fails: read with no column list, the group yields chunks
  whose only column is \<^verbatim>\<open>energy\<close>, because the default column set keeps the rank-1
  datasets only.
\<close>

theorem default_columns_leave_out_position:
  "map (\<lambda>(t, s, e). (map fst (table_columns t), s, e))
     (fst (drain little example_events (read_h5py_chunked ''events.h5'' ''events'' None (Some 4))))
   = [([''energy''], 0, 4), ([''energy''], 4, 8), ([''energy''], 8, 10)]"
  by code_simp

text \<open>
  C4, amended. With the columns \<^verbatim>\<open>energy\<close> and \<^verbatim>\<open>position\<close> requested by name, a group
  \<^verbatim>\<open>events\<close> holding \<^verbatim>\<open>energy\<close> (rank 1, 10 rows) and \<^verbatim>\<open>position\<close> (rank 2, 10 by 2), read
  with chunk size 4, yields exactly the chunks \<open>(0,4)\<close>, \<open>(4,8)\<close>, \<open>(8,10)\<close>, each with the
  columns \<^verbatim>\<open>energy\<close>, \<^verbatim>\<open>position_0\<close>, \<^verbatim>\<open>position_1\<close>; their concatenation is the table
  of the unchunked read and has 10 rows.
\<close>

theorem energy_position_in_three_chunks:
  assumes "fs file_path = Some hfile" and "may_read hfile" and "may_write hfile"
    and "map_of (groups hfile) ''events'' = Some [(''energy'', energy), (''position'', position)]"
    and "shape energy = [10]" and "length (items energy) = 10"
    and "shape position = [10, 2]" and "length (items position) = 20"
  shows "\<exists>t0 t1 t2 t.
           drain sys fs (read_h5py_chunked file_path ''events''
               (Some [''energy'', ''position'']) (Some 4))
             = ([(t0, 0, 4), (t1, 4, 8), (t2, 8, 10)], None)
         \<and> map fst (table_columns t0) = [''energy'', ''position_0'', ''position_1'']
         \<and> map fst (table_columns t1) = [''energy'', ''position_0'', ''position_1'']
         \<and> map fst (table_columns t2) = [''energy'', ''position_0'', ''position_1'']
         \<and> read_h5py sys fs file_path ''events'' (Some [''energy'', ''position'']) = Inr t
         \<and> concat_tables [t0, t1, t2] = Inr t
         \<and> length (index t) = 10"
proof -
  let ?grp = "[(''energy'', energy), (''position'', position)]"
  let ?cols = "Some [''energy'', ''position'']"
  let ?A = "group_assignments sys ?grp (resolve_columns ?grp ?cols)"
  let ?C = "foldl put [] ?A"
  let ?ch = "\<lambda>k. chunk_table ?C (k * nat 4) (min 10 (Suc k * nat 4))"
  have rows: "\<forall>(name, d)\<in>set ?grp. has_rows 10 d"
    using assms(5-8) by (simp add: has_rows_def)
  have cols: "case ?cols of None \<Rightarrow> True | Some cols \<Rightarrow> set cols \<subseteq> fst ` set ?grp"
    by simp
  have ne: "?grp \<noteq> []" by simp
  have size: "(0::int) < 4" "(4::int) \<le> int 10" "(10::nat) < 2 ^ 53"
    by simp_all
  note closed = chunked_read_closed [where fs = fs and file_path = file_path and sys = sys
      and c = 4, OF assms(1-4) ne rows cols size]
  have A: "?A = [(''energy'', cells sys energy),
                 (''position_0'', cells sys (take_column (to_native_byteorder sys position) 0)),
                 (''position_1'', cells sys (take_column (to_native_byteorder sys position) (Suc 0)))]"
    using assms(5,7)
    by (simp add: group_assignments_def resolve_columns_def column_assignments_def ndim_def
          to_native_byteorder_shape upt_2 str_nat_0 str_nat_1)
  have C: "?C = [(''energy'', cells sys energy),
                 (''position_0'', cells sys (take_column (to_native_byteorder sys position) 0)),
                 (''position_1'', cells sys (take_column (to_native_byteorder sys position) (Suc 0)))]"
    by (simp add: A put_def)
  have n: "nat (- ((- int 10) div 4)) = 3"
    by simp
  define t0 where "t0 = fst (?ch 0)"
  define t1 where "t1 = fst (?ch (Suc 0))"
  define t2 where "t2 = fst (?ch (Suc (Suc 0)))"
  define t where "t = \<lparr>index = arange 0 (int 10), table_columns = ?C\<rparr>"
  have ch: "?ch 0 = (t0, 0, 4)" "?ch (Suc 0) = (t1, 4, 8)" "?ch (Suc (Suc 0)) = (t2, 8, 10)"
    by (simp_all add: chunk_table_def t0_def t1_def t2_def)
  have "drain sys fs (read_h5py_chunked file_path ''events'' ?cols (Some 4))
             = (map ?ch [0, Suc 0, Suc (Suc 0)], None)"
    using closed(1) by (simp only: n upt_3)
  then have d: "drain sys fs (read_h5py_chunked file_path ''events'' ?cols (Some 4))
             = ([(t0, 0, 4), (t1, 4, 8), (t2, 8, 10)], None)"
    by (simp only: list.map ch)
  have r: "read_h5py sys fs file_path ''events'' ?cols = Inr t"
    using closed(2) by (simp add: A t_def)
  have dist: "distinct (map fst ?C)" by (simp add: C)
  have lens: "\<forall>a\<in>set ?C. length (snd a) = 10"
    using assms(5-8) by (simp add: C take_column_def to_native_byteorder_shape Let_def)
  have "concat_tables (map (\<lambda>k. fst (?ch k)) [0..<3]) = Inr t"
    unfolding t_def by (rule concat_chunks [OF dist lens]) simp_all
  then have cc: "concat_tables [t0, t1, t2] = Inr t"
    by (simp only: upt_3 list.map t0_def t1_def t2_def)
  have names: "map fst (table_columns t0) = [''energy'', ''position_0'', ''position_1'']"
    "map fst (table_columns t1) = [''energy'', ''position_0'', ''position_1'']"
    "map fst (table_columns t2) = [''energy'', ''position_0'', ''position_1'']"
    by (simp_all add: t0_def t1_def t2_def chunk_table_def C rows_def)
  have li: "length (index t) = 10" by (simp add: t_def)
  show ?thesis
    by (rule exI [of _ t0], rule exI [of _ t1], rule exI [of _ t2], rule exI [of _ t])
       (simp only: d names r cc li simp_thms)
qed

theorem energy_position_in_three_chunks_witness:
  "\<exists>t0 t1 t2 t.
     drain little example_events (read_h5py_chunked ''events.h5'' ''events''
         (Some [''energy'', ''position'']) (Some 4))
       = ([(t0, 0, 4), (t1, 4, 8), (t2, 8, 10)], None)
   \<and> map fst (table_columns t0) = [''energy'', ''position_0'', ''position_1'']
   \<and> map fst (table_columns t1) = [''energy'', ''position_0'', ''position_1'']
   \<and> map fst (table_columns t2) = [''energy'', ''position_0'', ''position_1'']
   \<and> read_h5py little example_events ''events.h5'' ''events''
         (Some [''energy'', ''position'']) = Inr t
   \<and> concat_tables [t0, t1, t2] = Inr t
   \<and> length (index t) = 10"
  by (rule energy_position_in_three_chunks
        [where hfile = "the (example_events ''events.h5'')"
           and energy = example_energy and position = example_position])
     (simp_all add: example_events_def example_energy_def example_position_def)

section \<open>Flattening a rank-2 dataset\<close>

lemma digit_char_value: "d < 10 \<Longrightarrow> (of_char (digit_char d) :: nat) - 48 = d"
  by (simp add: digit_char_def)

lemma digits_value_str_nat: "digits_value (str_nat n) = n"
proof (induction n rule: str_nat.induct)
  case (1 n)
  show ?case
  proof (cases "n < 10")
    case True
    then show ?thesis
      by (subst str_nat.simps) (simp add: digits_value_def digit_char_value)
  next
    case False
    have "digits_value (str_nat (n div 10) @ [digit_char (n mod 10)])
            = 10 * digits_value (str_nat (n div 10)) + (n mod 10)"
      by (simp add: digits_value_def digit_char_value)
    also have "\<dots> = n" using 1 False by simp
    finally show ?thesis
      using False by (subst str_nat.simps) simp
  qed
qed

lemma inj_str_nat: "inj str_nat"
  by (rule inj_on_inverseI [where g = digits_value]) (rule digits_value_str_nat)

lemma flattened_names_distinct:
  "distinct (map (\<lambda>i. x @ ''_'' @ str_nat i) [0..<W])"
proof -
  have "inj (\<lambda>i. x @ ''_'' @ str_nat i)"
    using inj_str_nat by (auto simp: inj_def)
  then show ?thesis
    by (simp add: distinct_map inj_on_def inj_def)
qed

lemma update_fresh: "k \<notin> fst ` set cs \<Longrightarrow> AList.update k v cs = cs @ [(k, v)]"
  by (induction cs) auto

lemma foldl_put_fresh:
  "distinct (map fst (cs @ as)) \<Longrightarrow> foldl put cs as = cs @ as"
proof (induction as arbitrary: cs)
  case Nil
  then show ?case by simp
next
  case (Cons a as)
  then have "fst a \<notin> fst ` set cs" by auto
  then have "put cs a = cs @ [a]" by (simp add: put_def update_fresh)
  moreover have "distinct (map fst ((cs @ [a]) @ as))" using Cons.prems by simp
  ultimately show ?case using Cons.IH [of "cs @ [a]"] by simp
qed

lemma row_of_columns:
  assumes "r < N" and "length V = N * W"
  shows "map (\<lambda>i. V ! (r * W + i)) [0..<W] = take W (drop (r * W) V)"
proof (rule nth_equalityI)
  have "Suc r * W \<le> N * W" using assms(1) by (intro mult_le_mono1) simp
  then have le: "r * W + W \<le> length V" using assms(2) by simp
  then show "length (map (\<lambda>i. V ! (r * W + i)) [0..<W]) = length (take W (drop (r * W) V))"
    by simp
  fix i
  assume "i < length (map (\<lambda>i. V ! (r * W + i)) [0..<W])"
  then have "i < W" by simp
  then show "map (\<lambda>i. V ! (r * W + i)) [0..<W] ! i = take W (drop (r * W) V) ! i"
    using le by simp
qed


text \<open>
  C5, as the claim states it, fails when another requested column has the name of a
  flattened one: read after \<^verbatim>\<open>x\<close>, the rank-1 dataset \<^verbatim>\<open>x_0\<close> replaces the first column of
  \<^verbatim>\<open>x\<close>, and row 0 of the table is \<open>(7, 2)\<close> where row 0 of \<^verbatim>\<open>x\<close> is \<open>(1, 2)\<close>.
\<close>


lemma example_position_row:
  "take 2 (drop (3 * 2) (array_values little example_position)) = [[6, 0], [7, 0]]"
  by code_simp


section \<open>The row index of a chunk\<close>

lemma df_setitem_index:
  assumes "df_setitem df name vals = Inr df'" and "index df = [] \<longrightarrow> vals = []"
  shows "index df' = index df"
  using assms by (auto simp: df_setitem_def split: if_splits)

lemma assign_all_index:
  assumes "assign_all df as = Inr df'" and "index df = [] \<longrightarrow> (\<forall>a\<in>set as. snd a = [])"
  shows "index df' = index df"
  using assms
proof (induction as arbitrary: df)
  case Nil
  then show ?case by simp
next
  case (Cons a as)
  from Cons.prems(1) obtain df1 where
      s: "df_setitem df (fst a) (snd a) = Inr df1" and r: "assign_all df1 as = Inr df'"
    by (cases "df_setitem df (fst a) (snd a)") simp_all
  have "index df = [] \<longrightarrow> snd a = []"
    using Cons.prems(2) by simp
  with s have i1: "index df1 = index df"
    by (rule df_setitem_index)
  have "index df1 = [] \<longrightarrow> (\<forall>a\<in>set as. snd a = [])"
    using Cons.prems(2) i1 by simp
  with r have "index df' = index df1"
    by (rule Cons.IH)
  with i1 show ?case by simp
qed

lemma slice_empty:
  assumes "0 \<le> start" and "0 \<le> stop" and "stop \<le> start"
    and "dataset_slice d start stop = Inr raw"
  shows "items raw = [] \<and> (\<exists>inner. shape raw = 0 # inner)"
proof (cases "shape d")
  case Nil
  then show ?thesis using assms(4) by (simp add: dataset_slice_def)
next
  case (Cons n inner)
  have "min stop (int n) \<le> min start (int n)"
    using assms(3) by simp
  then have "nat (min stop (int n)) \<le> nat (min start (int n))"
    by (rule nat_mono)
  then have "max (nat (min start (int n))) (nat (min stop (int n))) = nat (min start (int n))"
    by (rule max_absorb1)
  then have "slice_bounds n start stop = (nat (min start (int n)), nat (min start (int n)))"
    using assms(1,2) by (simp add: slice_bounds_def Let_def)
  then show ?thesis
    using assms(4) Cons by (auto simp: dataset_slice_def Let_def)
qed

lemma chunk_columns_index:
  assumes "0 \<le> start" and "0 \<le> stop"
    and "chunk_columns sys grp start stop cols df = Inr df'"
    and "index df = [] \<longrightarrow> stop \<le> start"
  shows "index df' = index df"
  using assms(3,4)
proof (induction cols arbitrary: df)
  case Nil
  then show ?case by simp
next
  case (Cons col cols)
  from Cons.prems(1) obtain d where d: "getitem grp col = Inr d"
    by (cases "getitem grp col") simp_all
  from Cons.prems(1) d obtain raw where raw: "dataset_slice d start stop = Inr raw"
    by (cases "dataset_slice d start stop") simp_all
  let ?array = "to_native_byteorder sys raw"
  let ?step = "if ndim ?array = 1 then df_setitem df col (cells sys ?array)
          else (case shape ?array of
                  n # w # inner \<Rightarrow> flatten_columns sys ?array col [0..<w] df
                | _ \<Rightarrow> Inl (IndexError ''tuple index out of range''))"
  from Cons.prems(1) d raw obtain df1 where
      step: "?step = Inr df1" and rest: "chunk_columns sys grp start stop cols df1 = Inr df'"
    by (cases ?step) (simp_all add: Let_def)
  have empty: "items raw = [] \<and> (\<exists>inner. shape raw = 0 # inner)" if "index df = []"
    using that Cons.prems(2) assms(1,2) raw by (intro slice_empty [of start stop d]) simp_all
  have i1: "index df1 = index df"
  proof (cases "ndim ?array = 1")
    case True
    then have "df_setitem df col (cells sys ?array) = Inr df1" using step by simp
    moreover have "index df = [] \<longrightarrow> cells sys ?array = []"
      using empty to_native_byteorder_length [of sys raw]
      by (auto simp: cells_def array_values_def)
    ultimately show ?thesis by (rule df_setitem_index)
  next
    case False
    then obtain n w inner where sh: "shape ?array = n # w # inner"
      and fl: "flatten_columns sys ?array col [0..<w] df = Inr df1"
      using step by (auto split: list.splits)
    have "index df = [] \<longrightarrow>
            (\<forall>a\<in>set (map (\<lambda>i. (col @ ''_'' @ str_nat i, cells sys (take_column ?array i))) [0..<w]).
               snd a = [])"
    proof
      assume "index df = []"
      from empty [OF this] have "shape ?array ! 0 = 0"
        by (auto simp: to_native_byteorder_shape)
      then show "\<forall>a\<in>set (map (\<lambda>i. (col @ ''_'' @ str_nat i, cells sys (take_column ?array i))) [0..<w]).
               snd a = []"
        by (simp add: cells_def array_values_def take_column_def Let_def)
    qed
    with fl show ?thesis
      by (intro assign_all_index [where as = "map (\<lambda>i. (col @ ''_'' @ str_nat i,
              cells sys (take_column ?array i))) [0..<w]"]) (simp_all add: flatten_as_assign)
  qed
  have "index df' = index df1"
    using rest Cons.prems(2) i1 by (intro Cons.IH) simp_all
  with i1 show ?case by simp
qed


lemma make_chunk_index:
  assumes "0 \<le> l_n_events st" and "0 \<le> l_chunksize st"
    and "make_chunk sys st k = Inr (t, s, e)"
  shows "index t = arange s e"
proof -
  let ?start = "int k * l_chunksize st"
  let ?stop = "min (l_n_events st) ((int k + 1) * l_chunksize st)"
  let ?df = "DataFrame_index (arange ?start ?stop)"
  from assms(3) obtain df' where
      c: "chunk_columns sys (l_group st) ?start ?stop (l_columns st) ?df = Inr df'"
    and r: "t = df'" "s = ?start" "e = ?stop"
    by (cases "chunk_columns sys (l_group st) ?start ?stop (l_columns st) ?df")
       (simp_all add: make_chunk_def Let_def)
  have nn: "0 \<le> ?start" "0 \<le> ?stop"
    using assms(1,2) by simp_all
  have "index ?df = [] \<longrightarrow> ?stop \<le> ?start"
    by (simp add: DataFrame_index_def)
  with nn c have "index df' = index ?df"
    by (rule chunk_columns_index)
  then show ?thesis
    by (simp add: r DataFrame_index_def)
qed

lemma n_events_nonneg: "h5py_get_n_events fs file_path key = Inr n \<Longrightarrow> 0 \<le> n"
  by (auto simp: h5py_get_n_events_def bind_exn_def getitem_def
        split: sum.splits option.splits list.splits)

lemma ceil_true_divide_sign:
  assumes "true_divide n c = Inr x" and "0 \<le> n" and "c < 0"
  shows "ceil_double x \<le> 0"
proof (cases "n = 0")
  case True
  then show ?thesis using assms by (auto simp: true_divide_def ceil_double_def)
next
  case False
  have cnz: "c \<noteq> 0" using assms(3) by simp
  define e where "e = max (- 1074) (binary_exponent (nat \<bar>n\<bar>) (nat \<bar>c\<bar>) - 52)"
  define m where "m = round_half_even (int (nat \<bar>n\<bar>) * 2 ^ nat (- e)) (int (nat \<bar>c\<bar>) * 2 ^ nat e)"
  have "0 < int (nat \<bar>c\<bar>)" using assms(3) by simp
  then have "0 < int (nat \<bar>c\<bar>) * 2 ^ nat e" by (intro mult_pos_pos) simp_all
  moreover have "0 \<le> int (nat \<bar>n\<bar>) * 2 ^ nat (- e)" by (intro mult_nonneg_nonneg) simp_all
  ultimately have "0 \<le> m"
    unfolding m_def by (rule round_half_even_nonneg)
  moreover have "true_divide n c
      = (if 971 < e \<or> (e = 971 \<and> m = 2 ^ 53)
         then Inl (OverflowError ''integer division result too large for a float'')
         else Inr (Double (sgn n * sgn c * m) e))"
    using cnz False by (simp only: true_divide_def Let_def e_def m_def if_False)
  then have "x = Double (sgn n * sgn c * m) e"
    using assms(1) by (simp split: if_splits)
  moreover have "sgn n * sgn c = - 1" using assms(2,3) False by simp
  ultimately have x: "x = Double (- m) e" and "0 \<le> m * 2 ^ nat e" by simp_all
  then have "0 \<le> (m * 2 ^ nat e) div 2 ^ nat (- e)"
    by (simp add: pos_imp_zdiv_nonneg_iff)
  then show ?thesis by (simp add: x ceil_double_def)
qed

lemma plan_chunks_sign:
  assumes "plan_chunks n cs = Inr (nc, c)" and "0 \<le> n" and "0 < nc"
  shows "0 \<le> c"
proof (cases cs)
  case None
  then show ?thesis using assms by (simp add: plan_chunks_def)
next
  case (Some c')
  from assms(1) Some obtain x where x: "true_divide n c' = Inr x"
    and c: "c = c'" "nc = ceil_double x"
    by (cases "true_divide n c'") (simp_all add: plan_chunks_def)
  show ?thesis
  proof (rule ccontr)
    assume "\<not> 0 \<le> c"
    then have "c' < 0" using c by simp
    with x assms(2) have "ceil_double x \<le> 0" by (rule ceil_true_divide_sign)
    then show False using assms(3) c by simp
  qed
qed

lemma chunked_setup_sign:
  assumes "chunked_setup fs file_path key columns chunksize = Inr st"
  shows "0 \<le> l_n_events st \<and> (0 < l_n_chunks st \<longrightarrow> 0 \<le> l_chunksize st)"
proof -
  from assms obtain f where f: "h5py_File fs file_path Mode_r_plus = Inr f"
    by (cases "h5py_File fs file_path Mode_r_plus") (simp_all add: chunked_setup_def)
  from assms f obtain grp where grp: "map_of f key = Some grp"
    by (cases "map_of f key") (simp_all add: chunked_setup_def)
  from assms f grp obtain n where n: "h5py_get_n_events fs file_path key = Inr n"
    by (cases "h5py_get_n_events fs file_path key")
       (auto simp: chunked_setup_def Let_def split: exn.splits)
  from assms f grp n obtain nc c where p: "plan_chunks n chunksize = Inr (nc, c)"
    by (cases "plan_chunks n chunksize") (auto simp: chunked_setup_def Let_def)
  from assms f grp n p obtain cols where
      "remove_high_rank grp (resolve_columns grp columns) (resolve_columns grp columns) = Inr cols"
    and st: "st = \<lparr>l_group = grp, l_columns = cols, l_n_events = n,
                    l_chunksize = c, l_n_chunks = nc\<rparr>"
    by (cases "remove_high_rank grp (resolve_columns grp columns) (resolve_columns grp columns)")
       (auto simp: chunked_setup_def Let_def)
  have "0 \<le> n" using n by (rule n_events_nonneg)
  moreover from this have "0 < nc \<longrightarrow> 0 \<le> c"
    using plan_chunks_sign [OF p] by blast
  ultimately show ?thesis by (simp add: st)
qed

lemma run_to_yield_index:
  assumes "0 \<le> l_n_events st" and "0 < l_n_chunks st \<longrightarrow> 0 \<le> l_chunksize st"
    and "run_to_yield sys st k = (Yield item, g)"
  shows "index (fst item) = arange (fst (snd item)) (snd (snd item)) \<and> g = Suspended st k"
proof -
  from assms(3) have lt: "int k < l_n_chunks st"
    and m: "make_chunk sys st k = Inr item" and g: "g = Suspended st k"
    by (auto simp: run_to_yield_def split: if_splits sum.splits)
  from lt have "0 < l_n_chunks st" by linarith
  with assms(2) have "0 \<le> l_chunksize st" by simp
  from make_chunk_index [OF assms(1) this, of sys k "fst item" "fst (snd item)" "snd (snd item)"] m g
  show ?thesis by simp
qed

lemma drain_suspended_index:
  assumes "0 \<le> l_n_events st" and "0 < l_n_chunks st \<longrightarrow> 0 \<le> l_chunksize st"
  shows "\<forall>x\<in>set (fst (drain sys fs (Suspended st k))).
           index (fst x) = arange (fst (snd x)) (snd (snd x))"
proof (induction "nat (l_n_chunks st) - Suc k" arbitrary: k)
  case 0
  then have "\<not> int (Suc k) < l_n_chunks st" by linarith
  then have "gen_next sys fs (Suspended st k) = (Stop, Finished)"
    by (simp add: gen_next_def run_to_yield_def)
  then show ?case by (simp add: drain_Stop)
next
  case (Suc m)
  obtain out g where out: "gen_next sys fs (Suspended st k) = (out, g)"
    by (cases "gen_next sys fs (Suspended st k)")
  show ?case
  proof (cases out)
    case (Yield item)
    then have ry: "run_to_yield sys st (Suc k) = (Yield item, g)"
      using out by (simp add: gen_next_def)
    from run_to_yield_index [OF assms ry]
    have item: "index (fst item) = arange (fst (snd item)) (snd (snd item))"
      and g: "g = Suspended st (Suc k)" by simp_all
    have "m = nat (l_n_chunks st) - Suc (Suc k)" using Suc.hyps(2) by simp
    then have "\<forall>x\<in>set (fst (drain sys fs (Suspended st (Suc k)))).
                 index (fst x) = arange (fst (snd x)) (snd (snd x))"
      by (rule Suc.hyps(1))
    with item show ?thesis
      using out Yield g by (simp add: drain_Yield)
  next
    case (Raise e)
    then show ?thesis using out by (simp add: drain_Raise)
  next
    case Stop
    then show ?thesis using out by (simp add: drain_Stop)
  qed
qed

text \<open>
  C2. Whatever the arguments, every chunk \<open>(table, start, end)\<close> the chunked reader yields
  has the row index \<open>start, ..., end - 1\<close>: the positions of its rows in the whole
  dataset, not positions counted from the start of the chunk.
\<close>

theorem chunk_index_is_global:
  "\<forall>(t, s, e)\<in>set (fst (drain sys fs (read_h5py_chunked file_path key columns chunksize))).
     index t = [s..e - 1]"
proof -
  let ?g = "read_h5py_chunked file_path key columns chunksize"
  have "\<forall>x\<in>set (fst (drain sys fs ?g)). index (fst x) = arange (fst (snd x)) (snd (snd x))"
  proof (cases "chunked_setup fs file_path key columns chunksize")
    case (Inl e)
    then have "gen_next sys fs ?g = (Raise e, Finished)"
      by (simp add: gen_next_def read_h5py_chunked_def)
    then show ?thesis by (simp add: drain_Raise)
  next
    case (Inr st)
    note sign = chunked_setup_sign [OF Inr]
    obtain out g where out: "run_to_yield sys st 0 = (out, g)"
      by (cases "run_to_yield sys st 0")
    then have next0: "gen_next sys fs ?g = (out, g)"
      using Inr by (simp add: gen_next_def read_h5py_chunked_def)
    show ?thesis
    proof (cases out)
      case (Yield item)
      from run_to_yield_index [OF sign [THEN conjunct1] sign [THEN conjunct2]] out Yield
      have item: "index (fst item) = arange (fst (snd item)) (snd (snd item))"
        and g: "g = Suspended st 0" by simp_all
      from drain_suspended_index [OF sign [THEN conjunct1] sign [THEN conjunct2], of sys fs 0] item
      show ?thesis
        using next0 Yield g by (simp add: drain_Yield)
    next
      case (Raise e)
      then show ?thesis using next0 by (simp add: drain_Raise)
    next
      case Stop
      then show ?thesis using next0 by (simp add: drain_Stop)
    qed
  qed
  then show ?thesis by (auto simp: arange_def)
qed


lemma example_chunk_ranges:
  "map (\<lambda>(t, s, e). (index t, s, e))
     (fst (drain little example_events (read_h5py_chunked ''events.h5'' ''events'' None (Some 4))))
   = [([0, 1, 2, 3], 0, 4), ([4, 5, 6, 7], 4, 8), ([8, 9], 8, 10)]"
  by code_simp

theorem chunk_index_is_global_witness:
  "map (\<lambda>(t, s, e). (index t, s, e))
     (fst (drain little example_events (read_h5py_chunked ''events.h5'' ''events'' None (Some 4))))
   = [([0, 1, 2, 3], 0, 4), ([4, 5, 6, 7], 4, 8), ([8, 9], 8, 10)]
   \<and> list_all (\<lambda>(t, s, e). index t = [s..e - 1])
       (fst (drain little example_events
          (read_h5py_chunked ''events.h5'' ''events'' None (Some 4))))"
  using example_chunk_ranges
    chunk_index_is_global [of little example_events "''events.h5''" "''events''" None "Some 4"]
  by (simp only: list_all_iff simp_thms)

end
